theory Spec2Isabelle
  imports Main "HOL-Library.AList"
begin

section \<open>JavaScript values\<close>

text \<open>
  The values the program handles are the values of JSON documents (the settings file, the
  webhook body, the query string) plus \<open>undefined\<close>, which a property read yields for an
  absent key.  An object is the list of its own properties in the engine's enumeration
  order; a lookup takes the first entry of a key and \<open>Object_keys\<close> lists each key once.
  An array is the list of its elements together with the named properties that have been
  written on it (none for an array of a JSON document; \<open>mergeDeep\<close> can write some).
  Numbers are integers here: the program only ever tests a number for truthiness and for
  its \<open>typeof\<close>, and never computes with one.
\<close>

datatype jsval =
    JUndefined
  | JNull
  | JBool bool
  | JNum int
  | JStr string
  | JArr "jsval list" "(string \<times> jsval) list"
  | JObj "(string \<times> jsval) list"

text \<open>
  What a \<open>throw\<close> throws: an \<open>Error\<close> object of the engine or of a library, with its
  message, or any other value (\<open>Thrown\<close>), which only the handlers of the bot can
  throw.
\<close>

datatype error = TypeError string | RangeError string | Error string | Thrown jsval

text \<open>
  A call returns, throws, or leaves the fragment of JavaScript that this development
  models (\<open>Unmodelled\<close>): \<open>mergeDeep\<close> does so when it replaces the prototype of its
  target or writes on \<open>Object.prototype\<close>, which changes the behaviour of every object
  of the process, and for a target that is not an object, which it is never given.
\<close>

datatype 'a outcome = Returns 'a | Throws error | Unmodelled

fun truthy :: "jsval \<Rightarrow> bool" where
  "truthy JUndefined = False"
| "truthy JNull = False"
| "truthy (JBool b) = b"
| "truthy (JNum n) = (n \<noteq> 0)"
| "truthy (JStr s) = (s \<noteq> [])"
| "truthy (JArr xs ps) = True"
| "truthy (JObj kvs) = True"

text \<open>\<open>typeof v === 'object'\<close> holds of objects, arrays and \<open>null\<close>.\<close>

fun typeof_object :: "jsval \<Rightarrow> bool" where
  "typeof_object JNull = True"
| "typeof_object (JArr xs ps) = True"
| "typeof_object (JObj kvs) = True"
| "typeof_object v = False"

fun isArray :: "jsval \<Rightarrow> bool" where
  "isArray (JArr xs ps) = True"
| "isArray v = False"

text \<open>A plain object: an object that is not an array (and not \<open>null\<close>).\<close>

fun plain_object :: "jsval \<Rightarrow> bool" where
  "plain_object (JObj kvs) = True"
| "plain_object v = False"

text \<open>The decimal numeral that names the index \<open>n\<close> of an array or a string.\<close>

function index_key :: "nat \<Rightarrow> string" where
  "index_key n =
     (if n < 10 then [char_of (48 + n)]
      else index_key (n div 10) @ [char_of (48 + n mod 10)])"
  by pat_completeness auto
termination
  by (relation "measure id") auto

declare index_key.simps [simp del]

text \<open>
  The own enumerable properties of a value, as \<open>Object.keys\<close> and a read of an own key
  see them: the entries of an object, the elements of an array and the characters of a
  string under their indices, an array's named properties after its elements, none for
  a number or a boolean.  \<open>null\<close> and \<open>undefined\<close> have no properties at all
  (\<open>None\<close>).
\<close>

fun own_props :: "jsval \<Rightarrow> (string \<times> jsval) list option" where
  "own_props (JObj kvs) = Some kvs"
| "own_props (JArr xs ps) = Some (zip (map index_key [0..<length xs]) xs @ ps)"
| "own_props (JStr s) = Some (zip (map index_key [0..<length s]) (map (\<lambda>c. JStr [c]) s))"
| "own_props (JNum n) = Some []"
| "own_props (JBool b) = Some []"
| "own_props JNull = None"
| "own_props JUndefined = None"

definition Object_keys :: "jsval \<Rightarrow> string list outcome" where
  "Object_keys v =
     (case own_props v of
        None \<Rightarrow> Throws (TypeError ''Cannot convert undefined or null to object'')
      | Some kvs \<Rightarrow> Returns (remdups (map fst kvs)))"

text \<open>
  \<open>own_prop v k\<close> is \<open>v[k]\<close> for a value that is neither \<open>null\<close> nor
  \<open>undefined\<close>.  Inherited members and the \<open>length\<close> of an array or a string are left
  out: the keys the program reads are the literals of its source and the keys of the
  settings data, and an inherited member of \<open>Object.prototype\<close> or \<open>Array.prototype\<close>
  is a function, which every test the program makes on a read value treats as it treats
  \<open>undefined\<close>.  The two keys for which this is not so, \<open>__proto__\<close> and the
  \<open>length\<close> of an array, can only be met by \<open>mergeDeep\<close>, which treats them itself
  (see \<open>mergeKeys\<close>).
\<close>

definition own_prop :: "jsval \<Rightarrow> string \<Rightarrow> jsval" where
  "own_prop v k =
     (case own_props v of
        None \<Rightarrow> JUndefined
      | Some kvs \<Rightarrow> (case map_of kvs k of None \<Rightarrow> JUndefined | Some x \<Rightarrow> x))"

text \<open>
  A property read \<open>v[k]\<close>: on \<open>null\<close> and \<open>undefined\<close> it throws the \<open>TypeError\<close>
  \<open>unreadable v k\<close>.
\<close>

definition unreadable_text :: "jsval \<Rightarrow> string \<Rightarrow> string" where
  "unreadable_text v k =
     ''Cannot read properties of '' @ (if v = JNull then ''null'' else ''undefined'')
     @ '' (reading '' @ [CHR 0x27] @ k @ [CHR 0x27] @ '')''"

definition unreadable :: "jsval \<Rightarrow> string \<Rightarrow> error" where
  "unreadable v k = TypeError (unreadable_text v k)"

definition get_prop :: "jsval \<Rightarrow> string \<Rightarrow> jsval outcome" where
  "get_prop v k =
     (if v = JNull \<or> v = JUndefined then Throws (unreadable v k)
      else Returns (own_prop v k))"

text \<open>
  \<open>err.message\<close> in a \<open>catch\<close>: the message of an \<open>Error\<close> object, and a property
  read on any other value that was thrown.
\<close>

fun message_of :: "error \<Rightarrow> jsval outcome" where
  "message_of (TypeError m) = Returns (JStr m)"
| "message_of (RangeError m) = Returns (JStr m)"
| "message_of (Error m) = Returns (JStr m)"
| "message_of (Thrown v) = get_prop v ''message''"

section \<open>The settings store (src/utils/safeConfig.js)\<close>

definition minimalTemplate :: jsval where
  "minimalTemplate = JObj [
     (''app'', JObj [
        (''name'', JStr ''FB Page Bot''),
        (''version'', JStr ''3.0.0''),
        (''author'', JStr ''IRFAN'')]),
     (''facebook'', JObj [
        (''pageAccessToken'', JStr ''''),
        (''verifyToken'', JStr ''xx''),
        (''pageId'', JStr ''''),
        (''appSecret'', JStr '''')]),
     (''server'', JObj [
        (''webhookPath'', JStr ''/webhook'')])]"

definition fallbackConfig :: jsval where
  "fallbackConfig = JObj [
     (''app'', JObj [
        (''name'', JStr ''FB Page Bot''),
        (''version'', JStr ''3.0.0''),
        (''author'', JStr ''IRFAN'')]),
     (''facebook'', JObj [
        (''pageAccessToken'', JStr ''''),
        (''verifyToken'', JStr ''xx''),
        (''pageId'', JStr ''''),
        (''appSecret'', JStr '''')]),
     (''bot'', JObj [
        (''name'', JStr ''Page Bot''),
        (''prefix'', JStr ''/''),
        (''timezone'', JStr ''UTC''),
        (''autoRestart'', JBool False),
        (''maxRetries'', JNum 3),
        (''cooldown'', JNum 500)]),
     (''logging'', JObj [
        (''level'', JStr ''info''),
        (''retentionDays'', JNum 7),
        (''logToFile'', JBool False),
        (''logToConsole'', JBool True)]),
     (''security'', JObj [
        (''adminUIDs'', JArr [] []),
        (''allowedDomains'', JArr [JStr ''*''] []),
        (''rateLimit'', JObj [
           (''windowMs'', JNum 900000),
           (''max'', JNum 100)])]),
     (''features'', JObj [
        (''enableBroadcast'', JBool False),
        (''enableAnalytics'', JBool False),
        (''enableAutoReplies'', JBool True),
        (''enableScheduledPosts'', JBool False),
        (''enableMultiLanguage'', JBool False),
        (''enableWebDashboard'', JBool True)]),
     (''pluginDefaults'', JObj [
        (''autoInstallDeps'', JBool False),
        (''hotReload'', JBool False),
        (''maxExecutionTime'', JNum 5000),
        (''memoryLimitMB'', JNum 50)]),
     (''server'', JObj [
        (''port'', JNum 3000),
        (''host'', JStr ''0.0.0.0''),
        (''webhookPath'', JStr ''/webhook''),
        (''enableHealthCheck'', JBool True),
        (''enableMetrics'', JBool True)])]"

text \<open>
  \<open>path.join(__dirname, '..', 'config.json')\<close>, with \<open>__dirname\<close> the directory
  \<open>src/utils\<close> of the project.
\<close>

definition configPath :: string where
  "configPath = ''src/config.json''"

definition backupPath :: string where
  "backupPath = configPath @ ''.bak''"

subsection \<open>The file system and the console\<close>

text \<open>
  The disk holds at most one sequence of bytes per path (a byte is a \<open>char\<close>).  A read
  of a path in \<open>read_fails\<close> throws (a directory, a file without read permission), as
  does a read of a path that holds nothing; a write to a path in \<open>write_fails\<close> throws
  (a read-only file system); the \<open>Error\<close> thrown has the message \<open>read_message\<close> or
  \<open>write_message\<close> of the path.  \<open>existsSync\<close> never throws.  The console collects
  the lines of \<open>console.log\<close> and \<open>console.warn\<close>, written here without the warning
  sign that starts them in the source.
\<close>

type_synonym bytes = "char list"

record world =
  files :: "string \<Rightarrow> bytes option"
  read_fails :: "string \<Rightarrow> bool"
  write_fails :: "string \<Rightarrow> bool"
  read_message :: "string \<Rightarrow> string"
  write_message :: "string \<Rightarrow> string"
  console :: "string list"

text \<open>
  What belongs to the engine is a parameter of the model: \<open>JSON.parse\<close>, which is
  \<open>None\<close> on a text that is not JSON (a \<open>SyntaxError\<close>); \<open>JSON.stringify\<close>; the
  decoding of the bytes of a file as UTF-8 that \<open>readFileSync(path, 'utf8')\<close> makes,
  which replaces what is not UTF-8, and the encoding of a string as UTF-8 that
  \<open>writeFileSync\<close> makes; and the number that an assignment to the \<open>length\<close> of an
  array converts a string or an array to, \<open>None\<close> when that is not an array length.
\<close>

record runtime =
  JSON_parse :: "string \<Rightarrow> jsval option"
  JSON_stringify :: "jsval \<Rightarrow> string"
  utf8_decode :: "bytes \<Rightarrow> string"
  utf8_encode :: "string \<Rightarrow> bytes"
  array_length_of :: "jsval \<Rightarrow> nat option"

definition existsSync :: "world \<Rightarrow> string \<Rightarrow> bool" where
  "existsSync w p = (files w p \<noteq> None)"

text \<open>\<open>Inl m\<close>: the call throws an \<open>Error\<close> with the message \<open>m\<close>.\<close>

definition readFileSync :: "runtime \<Rightarrow> world \<Rightarrow> string \<Rightarrow> string + string" where
  "readFileSync rt w p =
     (if read_fails w p then Inl (read_message w p)
      else case files w p of
             None \<Rightarrow> Inl (read_message w p)
           | Some b \<Rightarrow> Inr (utf8_decode rt b))"

definition writeFileSync :: "runtime \<Rightarrow> world \<Rightarrow> string \<Rightarrow> string \<Rightarrow> string + world" where
  "writeFileSync rt w p s =
     (if write_fails w p then Inl (write_message w p)
      else Inr (w\<lparr>files := (files w)(p := Some (utf8_encode rt s))\<rparr>))"

definition console_out :: "world \<Rightarrow> string \<Rightarrow> world" where
  "console_out w line = w\<lparr>console := console w @ [line]\<rparr>"

subsection \<open>Writing on an array\<close>

text \<open>
  A key is an index of an array when it is the decimal numeral of a number below
  \<open>2^32 - 1\<close>.  A write at an index beyond the end lengthens the array, the elements
  in between being holes, which read as \<open>undefined\<close>; a write at another key sets a
  named property.
\<close>

definition decimal :: "string \<Rightarrow> nat" where
  "decimal k = foldl (\<lambda>n c. 10 * n + (of_char c - 48)) 0 k"

definition array_index :: "string \<Rightarrow> nat option" where
  "array_index k =
     (if index_key (decimal k) = k \<and> decimal k < 4294967295 then Some (decimal k) else None)"

definition array_put :: "jsval list \<Rightarrow> (string \<times> jsval) list \<Rightarrow> string \<Rightarrow> jsval \<Rightarrow> jsval" where
  "array_put xs ps k v =
     (case array_index k of
        Some n \<Rightarrow>
          JArr (if n < length xs then xs[n := v]
                else xs @ replicate (n - length xs) JUndefined @ [v]) ps
      | None \<Rightarrow> JArr xs (AList.update k v ps))"

text \<open>
  An assignment to \<open>length\<close> converts the value to a number, throws a \<open>RangeError\<close>
  unless that is a whole number from \<open>0\<close> to \<open>2^32 - 1\<close>, and cuts or lengthens
  the array.
\<close>

definition new_length :: "runtime \<Rightarrow> jsval \<Rightarrow> nat option" where
  "new_length rt v =
     (case v of
        JNum n \<Rightarrow> if 0 \<le> n \<and> n < 4294967296 then Some (nat n) else None
      | JBool b \<Rightarrow> Some (if b then 1 else 0)
      | JNull \<Rightarrow> Some 0
      | JUndefined \<Rightarrow> None
      | JObj kvs \<Rightarrow> None
      | _ \<Rightarrow> array_length_of rt v)"

definition resize :: "jsval \<Rightarrow> nat \<Rightarrow> jsval" where
  "resize target n =
     (case target of
        JArr xs ps \<Rightarrow> JArr (take n xs @ replicate (n - length xs) JUndefined) ps
      | _ \<Rightarrow> target)"

text \<open>\<open>target[key] = v\<close> for a key that is neither \<open>__proto__\<close> nor \<open>length\<close>.\<close>

definition store :: "jsval \<Rightarrow> string \<Rightarrow> jsval \<Rightarrow> jsval" where
  "store target key v =
     (case target of
        JObj tkvs \<Rightarrow> JObj (AList.update key v tkvs)
      | JArr xs ps \<Rightarrow> array_put xs ps key v
      | _ \<Rightarrow> target)"

definition has_own :: "jsval \<Rightarrow> string \<Rightarrow> bool" where
  "has_own v k = (case own_props v of None \<Rightarrow> False | Some kvs \<Rightarrow> map_of kvs k \<noteq> None)"

subsection \<open>mergeDeep\<close>

text \<open>
  \<open>mergeDeep\<close> changes its target in place and returns it; the model returns the changed
  target.  \<open>mergeKeys\<close> is the \<open>for\<close> loop over \<open>Object.keys(source)\<close>.  A source value
  that is truthy, of type object and not an array is merged into \<open>target[key]\<close>, which
  is first replaced by \<open>{}\<close> unless it is truthy and of type object; any other source
  value is assigned.

  An array passes the test made on \<open>target[key]\<close>, so a plain object can be merged into
  an array of the target.  There the key \<open>length\<close> is the length of the array: it is a
  number, so a source object at this key first assigns \<open>{}\<close> to the length, which
  throws a \<open>RangeError\<close>, and any other source value is assigned to the length.

  The key \<open>__proto__\<close>, unless the target has it as an own property, reads and writes
  the prototype of the target.  A source object without keys is merged into the
  prototype and changes nothing, and the assignment of a primitive is ignored: both are
  harmless.  A source object with keys is merged into \<open>Object.prototype\<close> itself
  (or \<open>Array.prototype\<close>), and \<open>null\<close> or an array becomes the prototype of the
  target.
\<close>

fun harmless :: "jsval \<Rightarrow> bool" where
  "harmless (JObj kvs) = (kvs = [])"
| "harmless (JArr xs ps) = False"
| "harmless JNull = False"
| "harmless v = True"

lemma size_map_of:
  "map_of kvs k = Some v \<Longrightarrow> size v < Suc (size_list (size_prod (\<lambda>_. 0) size) kvs)"
  by (induction kvs) (auto split: if_splits)

lemma size_in_set: "v \<in> set xs \<Longrightarrow> size v < Suc (size_list size xs)"
  by (induction xs) auto

lemma own_props_size:
  assumes "own_props s = Some kvs" "map_of kvs k = Some v" "typeof_object v"
  shows "size v < size s"
proof (cases s)
  case (JObj ps)
  with assms show ?thesis
    using size_map_of [of kvs k v] by simp
next
  case (JArr xs ps)
  with assms have "map_of (zip (map index_key [0..<length xs]) xs) k = Some v
      \<or> map_of ps k = Some v"
    by (auto simp: map_add_Some_iff)
  then show ?thesis
  proof
    assume "map_of (zip (map index_key [0..<length xs]) xs) k = Some v"
    then have "v \<in> set xs"
      by (auto dest!: map_of_SomeD set_zip_rightD)
    with JArr show ?thesis
      using size_in_set [of v xs] by simp
  next
    assume "map_of ps k = Some v"
    with JArr show ?thesis
      using size_map_of [of ps k v] by simp
  qed
next
  case (JStr cs)
  with assms have "v \<in> set (map (\<lambda>c. JStr [c]) cs)"
    by (auto dest!: map_of_SomeD set_zip_rightD)
  with assms(3) show ?thesis
    by auto
qed (use assms in simp_all)

lemma own_prop_size:
  assumes "truthy (own_prop s k)" "typeof_object (own_prop s k)"
  shows "size (own_prop s k) < size s"
proof (cases "own_props s")
  case None
  with assms show ?thesis
    by (simp add: own_prop_def)
next
  case (Some kvs)
  show ?thesis
  proof (cases "map_of kvs k")
    case None
    with Some assms show ?thesis
      by (simp add: own_prop_def)
  next
    case (Some v)
    with \<open>own_props s = Some kvs\<close> assms show ?thesis
      using own_props_size [of s kvs k v] by (simp add: own_prop_def)
  qed
qed

function mergeDeep :: "runtime \<Rightarrow> jsval \<Rightarrow> jsval \<Rightarrow> jsval outcome"
  and mergeKeys :: "runtime \<Rightarrow> jsval \<Rightarrow> jsval \<Rightarrow> string list \<Rightarrow> jsval outcome"
where
  "mergeDeep rt target source =
     (case Object_keys source of
        Returns ks \<Rightarrow> mergeKeys rt target source ks
      | Throws e \<Rightarrow> Throws e
      | Unmodelled \<Rightarrow> Unmodelled)"
| "mergeKeys rt target source [] = Returns target"
| "mergeKeys rt target source (key # ks) =
     (if \<not> plain_object target \<and> \<not> isArray target then Unmodelled
      else if key = ''__proto__'' \<and> \<not> has_own target key
      then (if harmless (own_prop source key) then mergeKeys rt target source ks
            else Unmodelled)
      else if truthy (own_prop source key) \<and> typeof_object (own_prop source key)
                \<and> \<not> isArray (own_prop source key)
      then
        (if isArray target \<and> key = ''length''
         then Throws (RangeError ''Invalid array length'')
         else case mergeDeep rt
                     (if \<not> truthy (own_prop target key) \<or> \<not> typeof_object (own_prop target key)
                      then JObj [] else own_prop target key)
                     (own_prop source key) of
                Returns m \<Rightarrow> mergeKeys rt (store target key m) source ks
              | Throws e \<Rightarrow> Throws e
              | Unmodelled \<Rightarrow> Unmodelled)
      else if isArray target \<and> key = ''length''
      then (case new_length rt (own_prop source key) of
              None \<Rightarrow> Throws (RangeError ''Invalid array length'')
            | Some n \<Rightarrow> mergeKeys rt (resize target n) source ks)
      else mergeKeys rt (store target key (own_prop source key)) source ks)"
  by pat_completeness auto
termination
  by (relation "measures [
        (\<lambda>x. case x of Inl (rt, t, s) \<Rightarrow> size s | Inr (rt, t, s, ks) \<Rightarrow> size s),
        (\<lambda>x. case x of Inl (rt, t, s) \<Rightarrow> 1 | Inr (rt, t, s, ks) \<Rightarrow> 0),
        (\<lambda>x. case x of Inl (rt, t, s) \<Rightarrow> 0 | Inr (rt, t, s, ks) \<Rightarrow> length ks)]")
     (simp_all add: own_prop_size)

subsection \<open>ensureConfigFile, loadConfigRaw, getConfig\<close>

definition ensureConfigFile :: "runtime \<Rightarrow> world \<Rightarrow> world" where
  "ensureConfigFile rt w =
     (if \<not> existsSync w configPath then
        (case writeFileSync rt w configPath (JSON_stringify rt minimalTemplate) of
           Inr w' \<Rightarrow> console_out w' (''Created default configuration at '' @ configPath)
         | Inl m \<Rightarrow> console_out w (''Failed to create default config file: '' @ m))
      else w)"

text \<open>
  The inner \<open>catch\<close> of \<open>loadConfigRaw\<close> writes the backup and then the template; a
  write that throws there leaves through the outer \<open>catch\<close>, which only warns.
  \<open>configData\<close> is the template on every path but a successful parse.
\<close>

definition invalid_json_warning :: string where
  "invalid_json_warning =
     ''Invalid JSON in config.json. A backup was saved to '' @ backupPath
     @ '' and the default template will be used.''"

definition loadConfigRaw :: "runtime \<Rightarrow> world \<Rightarrow> jsval \<times> world" where
  "loadConfigRaw rt w0 =
     (let w = ensureConfigFile rt w0 in
      case readFileSync rt w configPath of
        Inl m \<Rightarrow> (minimalTemplate, console_out w (''Failed to read config.json: '' @ m))
      | Inr fileContents \<Rightarrow>
          (case JSON_parse rt fileContents of
             Some configData \<Rightarrow> (configData, w)
           | None \<Rightarrow>
               (case writeFileSync rt w backupPath fileContents of
                  Inl m \<Rightarrow>
                    (minimalTemplate, console_out w (''Failed to read config.json: '' @ m))
                | Inr w1 \<Rightarrow>
                    (let w2 = console_out w1 invalid_json_warning
                     in case writeFileSync rt w2 configPath (JSON_stringify rt minimalTemplate) of
                          Inl m \<Rightarrow>
                            (minimalTemplate,
                             console_out w2 (''Failed to read config.json: '' @ m))
                        | Inr w3 \<Rightarrow> (minimalTemplate, w3)))))"

text \<open>
  \<open>JSON.parse(JSON.stringify(fallbackConfig))\<close> is a fresh copy of the defaults: the
  value \<open>fallbackConfig\<close> itself, values having no identity here.
\<close>

definition getConfig :: "runtime \<Rightarrow> world \<Rightarrow> jsval outcome \<times> world" where
  "getConfig rt w =
     (let (raw, w') = loadConfigRaw rt w;
          merged = fallbackConfig
      in (mergeDeep rt merged raw, w'))"

subsection \<open>getMissingConfigKeys\<close>

text \<open>
  \<open>check\<close> is the helper of \<open>getMissingConfigKeys\<close>; the array \<open>missing\<close> it
  pushes to is passed through.  \<open>checkKeys\<close> is its loop over the keys of the template.
\<close>

function check :: "jsval \<Rightarrow> jsval \<Rightarrow> string \<Rightarrow> string list \<Rightarrow> string list outcome"
  and checkKeys ::
    "jsval \<Rightarrow> jsval \<Rightarrow> string \<Rightarrow> string list \<Rightarrow> string list \<Rightarrow> string list outcome"
where
  "check template obj prefix missing =
     (case Object_keys template of
        Returns ks \<Rightarrow> checkKeys template obj prefix ks missing
      | Throws e \<Rightarrow> Throws e
      | Unmodelled \<Rightarrow> Unmodelled)"
| "checkKeys template obj prefix [] missing = Returns missing"
| "checkKeys template obj prefix (key # ks) missing =
     (let pathKey = (if prefix \<noteq> [] then prefix @ ''.'' @ key else key) in
      if typeof_object (own_prop template key) \<and> own_prop template key \<noteq> JNull
           \<and> \<not> isArray (own_prop template key)
      then
        (case get_prop obj key of
           Returns sub \<Rightarrow>
             (case check (own_prop template key) (if truthy sub then sub else JObj [])
                     pathKey missing of
                Returns missing' \<Rightarrow> checkKeys template obj prefix ks missing'
              | Throws e \<Rightarrow> Throws e
              | Unmodelled \<Rightarrow> Unmodelled)
         | Throws e \<Rightarrow> Throws e
         | Unmodelled \<Rightarrow> Unmodelled)
      else
        (let val = (if truthy obj then own_prop obj key else obj) in
         checkKeys template obj prefix ks
           (if val = JStr [] \<or> val = JNull \<or> val = JUndefined
            then missing @ [pathKey] else missing)))"
  by pat_completeness auto
termination
proof (relation "measures [
        (\<lambda>x. case x of Inl (t, ob, p, m) \<Rightarrow> size t | Inr (t, ob, p, ks, m) \<Rightarrow> size t),
        (\<lambda>x. case x of Inl (t, ob, p, m) \<Rightarrow> 1 | Inr (t, ob, p, ks, m) \<Rightarrow> 0),
        (\<lambda>x. case x of Inl (t, ob, p, m) \<Rightarrow> 0 | Inr (t, ob, p, ks, m) \<Rightarrow> length ks)]",
       goal_cases)
  case (3 template obj prefix key ks missing pathKey sub)
  then have "truthy (own_prop template key)"
    by (cases "own_prop template key") simp_all
  with 3 show ?case
    by (simp add: own_prop_size)
qed simp_all

definition getMissingConfigKeys :: "runtime \<Rightarrow> world \<Rightarrow> string list outcome \<times> world" where
  "getMissingConfigKeys rt w =
     (let (raw, w') = loadConfigRaw rt w
      in (check minimalTemplate raw [] [], w'))"

subsection \<open>saveConfig\<close>

text \<open>
  \<open>JSON.stringify(undefined)\<close> is \<open>undefined\<close>, which \<open>writeFileSync\<close> refuses with
  a \<open>TypeError\<close>; like a failed write it is caught and reported.
\<close>

definition no_data_message :: string where
  "no_data_message =
     ''The '' @ [CHR 0x22] @ ''data'' @ [CHR 0x22] @ '' argument must be of type string or an ''
     @ ''instance of Buffer, TypedArray, or DataView. Received undefined''"

definition saveConfig :: "runtime \<Rightarrow> world \<Rightarrow> jsval \<Rightarrow> world" where
  "saveConfig rt w config =
     (if config = JUndefined
      then console_out w (''Failed to save config.json: '' @ no_data_message)
      else case writeFileSync rt w configPath (JSON_stringify rt config) of
             Inr w' \<Rightarrow> w'
           | Inl m \<Rightarrow> console_out w (''Failed to save config.json: '' @ m))"

section \<open>The webhook gateway (src/index.js)\<close>

subsection \<open>Collaborators and state\<close>

text \<open>
  The logger, the handler module and the clock are collaborators outside the modelled
  files.  A call of \<open>logger.info\<close>, \<open>logger.warn\<close> or \<open>logger.error\<close> returns or throws
  (\<open>logger_throws\<close> gives the message of the \<open>Error\<close> it throws at a level);
  \<open>require('./handlres/index')\<close> returns a module with the three handlers or throws
  (\<open>handlers_missing\<close> gives what it throws); the n-th handler invocation of the
  process fulfils, throws synchronously, or returns a promise that rejects
  (\<open>handler_result_of\<close>), and what it throws or rejects with is any value: an \<open>Error\<close>
  object, or \<open>null\<close>, \<open>undefined\<close>, a string, an object.  \<open>Date_now\<close> is the clock.
  The response object of the transport is taken not to throw.  The texts passed to the
  logger are written without the sign that starts some of them in the source.
\<close>

datatype log_level = LogInfo | LogWarn | LogError

datatype handler_result = Fulfils | ThrowsSync error | Rejects error

record collaborators =
  logger_throws :: "log_level \<Rightarrow> string option"
  handlers_missing :: "error option"
  handler_result_of :: "nat \<Rightarrow> handler_result"
  Date_now :: int

text \<open>A handler invocation with its arguments, in the order of the call.\<close>

datatype invocation =
    HandleMessage jsval jsval jsval jsval
  | HandlePostback jsval jsval jsval jsval
  | HandleComment jsval jsval

text \<open>
  The state of the process: the variables \<open>config\<close> and \<open>lastRuntimeError\<close> of the
  module (the latter is \<open>null\<close> at the start), the calls made to the logger, with their
  arguments, and to the handlers so far, the promises of handlers that have rejected,
  each with the text that its \<open>.catch\<close> callback will pass to the logger and with the
  value it rejected with, and the disk.
\<close>

record server =
  config :: jsval
  lastRuntimeError :: jsval
  logged :: "(log_level \<times> jsval list) list"
  invocations :: "invocation list"
  rejections :: "(string \<times> error) list"
  disk :: world

record response =
  statusCode :: nat
  sent :: jsval

subsection \<open>Statements that may throw\<close>

type_synonym 'a action = "server \<Rightarrow> 'a outcome \<times> server"

definition returning :: "'a \<Rightarrow> 'a action" where
  "returning x s = (Returns x, s)"

definition throwing :: "error \<Rightarrow> 'a action" where
  "throwing e s = (Throws e, s)"

definition and_then :: "'a action \<Rightarrow> ('a \<Rightarrow> 'b action) \<Rightarrow> 'b action" where
  "and_then m f s =
     (case m s of
        (Returns x, s') \<Rightarrow> f x s'
      | (Throws e, s') \<Rightarrow> (Throws e, s')
      | (Unmodelled, s') \<Rightarrow> (Unmodelled, s'))"

definition try_catch :: "'a action \<Rightarrow> (error \<Rightarrow> 'a action) \<Rightarrow> 'a action" where
  "try_catch m handler s =
     (case m s of
        (Throws e, s') \<Rightarrow> handler e s'
      | (Returns x, s') \<Rightarrow> (Returns x, s')
      | (Unmodelled, s') \<Rightarrow> (Unmodelled, s'))"

text \<open>\<open>xs.forEach(f)\<close>: an exception thrown by \<open>f\<close> ends the loop.\<close>

fun forEach :: "('a \<Rightarrow> unit action) \<Rightarrow> 'a list \<Rightarrow> unit action" where
  "forEach f [] = returning ()"
| "forEach f (x # xs) = and_then (f x) (\<lambda>_. forEach f xs)"

definition reading :: "jsval \<Rightarrow> string \<Rightarrow> jsval action" where
  "reading v k s = (get_prop v k, s)"

text \<open>\<open>err.message\<close>, for the value \<open>err\<close> that a \<open>catch\<close> has caught.\<close>

definition message_read :: "error \<Rightarrow> jsval action" where
  "message_read err s = (message_of err, s)"

definition current_config :: "jsval action" where
  "current_config s = (Returns (config s), s)"

definition set_lastRuntimeError :: "jsval \<Rightarrow> unit action" where
  "set_lastRuntimeError m s = (Returns (), s\<lparr>lastRuntimeError := m\<rparr>)"

definition logger :: "collaborators \<Rightarrow> log_level \<Rightarrow> jsval list \<Rightarrow> unit action" where
  "logger co lvl args s =
     (case logger_throws co lvl of None \<Rightarrow> Returns () | Some m \<Rightarrow> Throws (Error m),
      s\<lparr>logged := logged s @ [(lvl, args)]\<rparr>)"

text \<open>\<open>logger.error(label, err.message)\<close>, the body of most \<open>catch\<close> blocks.\<close>

definition log_failure :: "collaborators \<Rightarrow> string \<Rightarrow> error \<Rightarrow> unit action" where
  "log_failure co label err =
     and_then (message_read err) (\<lambda>m. logger co LogError [JStr label, m])"

text \<open>\<open>a || b\<close> and \<open>a && a[k]\<close>.\<close>

definition or_else :: "jsval \<Rightarrow> jsval \<Rightarrow> jsval" where
  "or_else a b = (if truthy a then a else b)"

definition and_prop :: "jsval \<Rightarrow> string \<Rightarrow> jsval" where
  "and_prop a k = (if truthy a then own_prop a k else a)"

text \<open>
  \<open>a === b\<close> for two values read from different places (the query string and the
  settings): equal primitives are equal, an object or an array is only equal to itself.
\<close>

fun strict_equal :: "jsval \<Rightarrow> jsval \<Rightarrow> bool" where
  "strict_equal (JArr xs ps) b = False"
| "strict_equal (JObj kvs) b = False"
| "strict_equal a b = (a = b)"

text \<open>
  \<open>Promise.resolve(handler(...)).catch(err => logger.error(label, err.message))\<close>: the
  handler is called; what it throws synchronously is thrown here; a promise that rejects
  is left to its \<open>.catch\<close> callback, which runs after the request handler has returned
  (\<open>settle\<close>).
\<close>

definition invoke :: "collaborators \<Rightarrow> invocation \<Rightarrow> string \<Rightarrow> unit action" where
  "invoke co call label s =
     (let s' = s\<lparr>invocations := invocations s @ [call]\<rparr> in
      case handler_result_of co (length (invocations s)) of
        Fulfils \<Rightarrow> (Returns (), s')
      | ThrowsSync e \<Rightarrow> (Throws e, s')
      | Rejects e \<Rightarrow> (Returns (), s'\<lparr>rejections := rejections s' @ [(label, e)]\<rparr>))"

definition settle :: "collaborators \<Rightarrow> string \<times> error \<Rightarrow> unit action" where
  "settle co rejected = log_failure co (fst rejected) (snd rejected)"

text \<open>
  \<open>coll?.forEach(cb)\<close>, where \<open>what\<close> is the text of the expression \<open>coll\<close>: nothing
  for \<open>undefined\<close> and \<open>null\<close>, the loop over the elements for an array, and a
  \<open>TypeError\<close> for any other JSON value, which has no function \<open>forEach\<close>.
\<close>

definition optional_forEach :: "jsval \<Rightarrow> string \<Rightarrow> (jsval \<Rightarrow> unit action) \<Rightarrow> unit action" where
  "optional_forEach coll what cb =
     (case coll of
        JUndefined \<Rightarrow> returning ()
      | JNull \<Rightarrow> returning ()
      | JArr xs ps \<Rightarrow> forEach cb xs
      | _ \<Rightarrow> throwing (TypeError (what @ ''?.forEach is not a function'')))"

subsection \<open>The verification handshake (GET)\<close>

definition verify :: "collaborators \<Rightarrow> jsval \<Rightarrow> response action" where
  "verify co query =
     (let mode = own_prop query ''hub.mode'';
          token = own_prop query ''hub.verify_token'';
          challenge = own_prop query ''hub.challenge''
      in and_then current_config (\<lambda>cfg.
         and_then (reading cfg ''facebook'') (\<lambda>facebook.
           let verifyToken = or_else (and_prop facebook ''verifyToken'') (JStr []) in
           if mode = JStr ''subscribe'' \<and> strict_equal token verifyToken
           then and_then (logger co LogInfo [JStr ''Webhook verified successfully'']) (\<lambda>_.
                  returning \<lparr>statusCode = 200, sent = or_else challenge (JStr [])\<rparr>)
           else and_then (logger co LogWarn [JStr ''Webhook verification failed'']) (\<lambda>_.
                  returning \<lparr>statusCode = 403, sent = JStr ''Forbidden''\<rparr>))))"

text \<open>
  The GET handler.  Its \<open>catch\<close> calls \<open>logger.error\<close> before it records the message
  and before it answers.  The result is the response the handler sends, or the exception
  that leaves the handler, which then has sent none.
\<close>

definition get_webhook :: "collaborators \<Rightarrow> jsval \<Rightarrow> response action" where
  "get_webhook co query =
     try_catch (verify co query)
       (\<lambda>err. and_then (log_failure co ''Error in webhook verification:'' err) (\<lambda>_.
              and_then (message_read err) (\<lambda>m.
              and_then (set_lastRuntimeError m) (\<lambda>_.
              returning \<lparr>statusCode = 200, sent = JStr []\<rparr>))))"

subsection \<open>Event dispatch (POST)\<close>

definition dispatch_messaging :: "collaborators \<Rightarrow> jsval \<Rightarrow> unit action" where
  "dispatch_messaging co event =
     and_then (reading event ''sender'') (\<lambda>sender.
     and_then (reading event ''recipient'') (\<lambda>recipient.
     and_then (reading event ''timestamp'') (\<lambda>stamp.
       let senderId = and_prop sender ''id'';
           recipientId = and_prop recipient ''id'';
           timestamp = or_else stamp (JNum (Date_now co))
       in try_catch
            (and_then (reading event ''message'') (\<lambda>message.
               if truthy message
               then invoke co (HandleMessage message senderId recipientId timestamp)
                      ''Error handling message:''
               else and_then (reading event ''postback'') (\<lambda>postback.
                      if truthy postback
                      then invoke co (HandlePostback postback senderId recipientId timestamp)
                             ''Error handling postback:''
                      else returning ())))
            (log_failure co ''Error dispatching messaging event:''))))"

definition dispatch_change :: "collaborators \<Rightarrow> jsval \<Rightarrow> jsval \<Rightarrow> unit action" where
  "dispatch_change co entry change =
     and_then (reading change ''value'') (\<lambda>v.
       let val = or_else v (JObj []) in
       and_then (reading change ''field'') (\<lambda>field.
         if field = JStr ''feed'' \<and> own_prop val ''item'' = JStr ''comment''
              \<and> own_prop val ''verb'' = JStr ''add''
         then
           (let commentId = own_prop val ''comment_id'';
                postId = own_prop val ''post_id'';
                senderId = and_prop (own_prop val ''from'') ''id'';
                senderName = and_prop (own_prop val ''from'') ''name'';
                message = or_else (own_prop val ''message'') (JStr []);
                createdAt = or_else (own_prop val ''created_time'') (JNum (Date_now co))
            in try_catch
                 (and_then (reading entry ''id'') (\<lambda>entryId.
                    invoke co
                      (HandleComment
                         (JObj [(''commentId'', commentId), (''postId'', postId),
                                (''senderId'', senderId), (''senderName'', senderName),
                                (''message'', message), (''createdAt'', createdAt)])
                         entryId)
                      ''Error handling comment:''))
                 (log_failure co ''Error dispatching comment event:''))
         else returning ()))"

definition dispatch_entry :: "collaborators \<Rightarrow> jsval \<Rightarrow> unit action" where
  "dispatch_entry co entry =
     and_then (reading entry ''messaging'') (\<lambda>messaging.
     and_then (optional_forEach messaging ''entry.messaging'' (dispatch_messaging co)) (\<lambda>_.
     and_then (reading entry ''changes'') (\<lambda>changes.
       optional_forEach changes ''entry.changes'' (dispatch_change co entry))))"

text \<open>The body of the \<open>try\<close> block of the POST handler.\<close>

definition process_events :: "collaborators \<Rightarrow> jsval \<Rightarrow> unit action" where
  "process_events co body =
     and_then (reading body ''object'') (\<lambda>discriminator.
       if discriminator \<noteq> JStr ''page'' then returning ()
       else case handlers_missing co of
              Some handlerErr \<Rightarrow>
                log_failure co ''Failed to load message handlers:'' handlerErr
            | None \<Rightarrow>
                and_then (reading body ''entry'') (\<lambda>entries.
                  optional_forEach entries ''body.entry'' (dispatch_entry co)))"

text \<open>
  The POST handler, for the body \<open>req.body\<close> that the body parsers have left: the
  acknowledgment is sent first; then the settings are reloaded (outside any \<open>try\<close>),
  processing stops when the access token is missing, and the events are processed inside
  the \<open>try\<close> whose \<open>catch\<close> logs the error and records its message.  The second
  component is how the handler ends: it returns, or an exception leaves it.
\<close>

definition post_webhook ::
    "runtime \<Rightarrow> collaborators \<Rightarrow> jsval \<Rightarrow> server \<Rightarrow> response \<times> unit outcome \<times> server" where
  "post_webhook rt co reqBody s =
     (let res = \<lparr>statusCode = 200, sent = JStr ''EVENT_RECEIVED''\<rparr>;
          (cfg, w) = getConfig rt (disk s)
      in case cfg of
           Throws e \<Rightarrow> (res, Throws e, s\<lparr>disk := w\<rparr>)
         | Unmodelled \<Rightarrow> (res, Unmodelled, s\<lparr>disk := w\<rparr>)
         | Returns c \<Rightarrow>
             (let s1 = s\<lparr>config := c, disk := w\<rparr> in
              if \<not> truthy (own_prop c ''facebook'')
                   \<or> \<not> truthy (own_prop (own_prop c ''facebook'') ''pageAccessToken'')
              then (res, logger co LogWarn
                           [JStr ''Skipping webhook event processing: pageAccessToken is missing'']
                           s1)
              else (res, try_catch (process_events co (or_else reqBody (JObj [])))
                           (\<lambda>err. and_then
                                    (log_failure co ''Error processing webhook event:'' err) (\<lambda>_.
                                  and_then (message_read err) set_lastRuntimeError)) s1)))"

subsection \<open>The body parser in front of the POST handler\<close>







section \<open>Notions used to state the properties\<close>

subsection \<open>Key paths, leaves and kinds of settings\<close>

text \<open>
  \<open>get_path v p\<close> is the value found in \<open>v\<close> by reading the own properties named by the
  keys \<open>p\<close> one after the other, if they all exist.  \<open>section_path v p\<close> is the same value
  when the path leads to it through plain objects only.  A leaf is any value but a plain
  object: a primitive, \<open>null\<close> or an array.
\<close>

fun get_path :: "jsval \<Rightarrow> string list \<Rightarrow> jsval option" where
  "get_path v [] = Some v"
| "get_path v (k # ks) =
     (case own_props v of
        None \<Rightarrow> None
      | Some kvs \<Rightarrow> (case map_of kvs k of None \<Rightarrow> None | Some x \<Rightarrow> get_path x ks))"

fun section_path :: "jsval \<Rightarrow> string list \<Rightarrow> jsval option" where
  "section_path v [] = Some v"
| "section_path (JObj kvs) (k # ks) =
     (case map_of kvs k of None \<Rightarrow> None | Some x \<Rightarrow> section_path x ks)"
| "section_path v (k # ks) = None"


fun distinct_keys :: "jsval \<Rightarrow> bool"
  and distinct_keys_of :: "(string \<times> jsval) list \<Rightarrow> bool"
where
  "distinct_keys (JObj kvs) = (distinct (map fst kvs) \<and> distinct_keys_of kvs)"
| "distinct_keys v = True"
| "distinct_keys_of [] = True"
| "distinct_keys_of ((k, v) # kvs) = (distinct_keys v \<and> distinct_keys_of kvs)"



text \<open>
  \<open>untouched s p\<close>: the source \<open>s\<close> says nothing about the path \<open>p\<close>, because it
  reaches, through nested plain objects, a value that lacks the next key of \<open>p\<close>.
\<close>

fun untouched :: "jsval \<Rightarrow> string list \<Rightarrow> bool" where
  "untouched s [] = False"
| "untouched s (k # ks) =
     (case own_props s of
        None \<Rightarrow> False
      | Some kvs \<Rightarrow>
          (case map_of kvs k of
             None \<Rightarrow> True
           | Some x \<Rightarrow> plain_object x \<and> ks \<noteq> [] \<and> untouched x ks))"

text \<open>
  \<open>conforms d v\<close>: the value \<open>v\<close> has the shape of the defaults \<open>d\<close>, that is, every key
  of \<open>d\<close> is a key of \<open>v\<close>, a section of \<open>d\<close> is a section of \<open>v\<close>, and a leaf of \<open>d\<close>
  is matched by a value of the same kind (string, number, boolean, array, \<open>null\<close>).
  Keys of \<open>v\<close> that \<open>d\<close> does not have are free.
\<close>

fun same_kind :: "jsval \<Rightarrow> jsval \<Rightarrow> bool" where
  "same_kind JUndefined JUndefined = True"
| "same_kind JNull JNull = True"
| "same_kind (JBool a) (JBool b) = True"
| "same_kind (JNum a) (JNum b) = True"
| "same_kind (JStr a) (JStr b) = True"
| "same_kind (JArr a pa) (JArr b pb) = True"
| "same_kind (JObj a) (JObj b) = True"
| "same_kind d v = False"

fun conforms :: "jsval \<Rightarrow> jsval \<Rightarrow> bool"
  and conforms_props :: "(string \<times> jsval) list \<Rightarrow> jsval \<Rightarrow> bool"
where
  "conforms (JObj dkvs) v = (plain_object v \<and> conforms_props dkvs v)"
| "conforms d v = same_kind d v"
| "conforms_props [] v = True"
| "conforms_props ((k, d) # rest) v = (conforms d (own_prop v k) \<and> conforms_props rest v)"

text \<open>
  \<open>kinds_agree d s\<close>: wherever the source \<open>s\<close> has a key of the defaults \<open>d\<close>, it has
  a section for a section, an array or an object for an array (the object is merged
  into the array), and a leaf of the same kind for any other leaf.
\<close>

fun kinds_agree :: "jsval \<Rightarrow> jsval \<Rightarrow> bool"
  and kinds_agree_props :: "(string \<times> jsval) list \<Rightarrow> jsval \<Rightarrow> bool"
where
  "kinds_agree (JObj dkvs) s = (plain_object s \<and> kinds_agree_props dkvs s)"
| "kinds_agree (JArr xs ps) s = (isArray s \<or> plain_object s)"
| "kinds_agree d s = same_kind d s"
| "kinds_agree_props [] s = True"
| "kinds_agree_props ((k, d) # rest) s =
     ((\<not> has_own s k \<or> kinds_agree d (own_prop s k)) \<and> kinds_agree_props rest s)"

definition settings_agree :: "jsval \<Rightarrow> bool" where
  "settings_agree raw =
     (case fallbackConfig of JObj dkvs \<Rightarrow> kinds_agree_props dkvs raw | _ \<Rightarrow> False)"

text \<open>
  The settings that \<open>mergeDeep\<close> merges within the model.  \<open>proto_safe s\<close>: in \<open>s\<close>
  and in the plain objects nested in it, a key \<open>__proto__\<close> only holds a primitive or an
  object without keys, which changes no prototype.  \<open>lists_fit d s\<close>: where the
  defaults \<open>d\<close> hold an array and the source holds a plain object, the object has no key
  \<open>length\<close>, so the merge leaves the length of the array to the elements it writes.
\<close>

fun proto_safe :: "jsval \<Rightarrow> bool"
  and proto_safe_props :: "(string \<times> jsval) list \<Rightarrow> bool"
where
  "proto_safe (JObj kvs) = proto_safe_props kvs"
| "proto_safe v = True"
| "proto_safe_props [] = True"
| "proto_safe_props ((k, v) # rest) =
     ((if k = ''__proto__'' then harmless v else proto_safe v) \<and> proto_safe_props rest)"

definition proto_safe_root :: "jsval \<Rightarrow> bool" where
  "proto_safe_root raw =
     (case own_props raw of None \<Rightarrow> False | Some kvs \<Rightarrow> proto_safe_props kvs)"

fun lists_fit :: "jsval \<Rightarrow> jsval \<Rightarrow> bool"
  and lists_fit_props :: "(string \<times> jsval) list \<Rightarrow> jsval \<Rightarrow> bool"
where
  "lists_fit (JObj dkvs) s = (\<not> plain_object s \<or> lists_fit_props dkvs s)"
| "lists_fit (JArr xs ps) s = (\<not> plain_object s \<or> \<not> has_own s ''length'')"
| "lists_fit d s = True"
| "lists_fit_props [] s = True"
| "lists_fit_props ((k, d) # rest) s = (lists_fit d (own_prop s k) \<and> lists_fit_props rest s)"

definition lists_fit_root :: "jsval \<Rightarrow> bool" where
  "lists_fit_root raw =
     (case fallbackConfig of JObj dkvs \<Rightarrow> lists_fit_props dkvs raw | _ \<Rightarrow> False)"

text \<open>
  \<open>mergeable raw\<close>: the raw settings are neither \<open>null\<close> nor \<open>undefined\<close>, change no
  prototype and give no \<open>length\<close> to a list of the defaults.
\<close>

definition mergeable :: "jsval \<Rightarrow> bool" where
  "mergeable raw = (proto_safe_root raw \<and> lists_fit_root raw)"

subsection \<open>Auxiliary notions of the proofs\<close>

definition is_digit :: "char \<Rightarrow> bool" where
  "is_digit c = (48 \<le> (of_char c :: nat) \<and> (of_char c :: nat) \<le> 57)"





text \<open>
  The target that \<open>mergeDeep\<close> recurses into at a key, and the targets it is given
  when it starts from the defaults: an object without an own key \<open>__proto__\<close> whose
  values are such targets, or an array of fewer than \<open>2^32 - 1\<close> elements that are
  neither objects nor arrays, without named properties.
\<close>

definition object_like :: "jsval \<Rightarrow> bool" where
  "object_like v = (truthy v \<and> typeof_object v)"

definition sub_target :: "jsval \<Rightarrow> jsval" where
  "sub_target tv = (if \<not> truthy tv \<or> \<not> typeof_object tv then JObj [] else tv)"

fun pristine :: "jsval \<Rightarrow> bool"
  and pristine_props :: "(string \<times> jsval) list \<Rightarrow> bool"
where
  "pristine (JObj kvs) = pristine_props kvs"
| "pristine (JArr xs ps) =
     (ps = [] \<and> length xs < 4294967295 \<and> list_all (\<lambda>x. \<not> object_like x) xs)"
| "pristine v = True"
| "pristine_props [] = True"
| "pristine_props ((k, v) # rest) = (k \<noteq> ''__proto__'' \<and> pristine v \<and> pristine_props rest)"

text \<open>
  \<open>lookup v k\<close> is the own property \<open>k\<close> of \<open>v\<close>, if there is one.  \<open>target t\<close>:
  an object or an array that \<open>mergeDeep\<close> can be given as its target, without an own
  key \<open>__proto__\<close>; \<open>fits t s\<close>: the source \<open>s\<close> gives no \<open>length\<close> to the
  array \<open>t\<close> or to an array nested in the object \<open>t\<close>.
\<close>

definition lookup :: "jsval \<Rightarrow> string \<Rightarrow> jsval option" where
  "lookup v k = (case own_props v of None \<Rightarrow> None | Some kvs \<Rightarrow> map_of kvs k)"

definition target :: "jsval \<Rightarrow> bool" where
  "target t =
     (case t of
        JObj kvs \<Rightarrow> map_of kvs ''__proto__'' = None
      | JArr xs ps \<Rightarrow>
          length xs \<le> 4294967295 \<and> (\<forall>k \<in> fst ` set ps. array_index k = None)
          \<and> map_of ps ''__proto__'' = None
      | _ \<Rightarrow> False)"

definition fits :: "jsval \<Rightarrow> jsval \<Rightarrow> bool" where
  "fits t s =
     (case t of
        JObj tkvs \<Rightarrow> lists_fit_props tkvs s
      | JArr xs ps \<Rightarrow> \<not> has_own s ''length''
      | _ \<Rightarrow> True)"

subsection \<open>The handshake, the acknowledgment and the expected invocations\<close>

definition configured_verify_token :: "jsval \<Rightarrow> jsval" where
  "configured_verify_token cfg = or_else (and_prop (own_prop cfg ''facebook'') ''verifyToken'') (JStr [])"

definition handshake_succeeds :: "jsval \<Rightarrow> jsval \<Rightarrow> bool" where
  "handshake_succeeds cfg query =
     (own_prop query ''hub.mode'' = JStr ''subscribe''
      \<and> strict_equal (own_prop query ''hub.verify_token'') (configured_verify_token cfg))"

definition challenge_response :: "jsval \<Rightarrow> response" where
  "challenge_response query =
     \<lparr>statusCode = 200, sent = or_else (own_prop query ''hub.challenge'') (JStr [])\<rparr>"

definition forbidden :: response where
  "forbidden = \<lparr>statusCode = 403, sent = JStr ''Forbidden''\<rparr>"

definition empty_success :: response where
  "empty_success = \<lparr>statusCode = 200, sent = JStr []\<rparr>"

text \<open>
  The exception, if any, that the \<open>try\<close> block of the GET handler raises: the read of
  \<open>config.facebook\<close> when \<open>config\<close> is unset, or else what the logger throws at the
  level of the call made.
\<close>

definition verification_error :: "collaborators \<Rightarrow> jsval \<Rightarrow> jsval \<Rightarrow> error option" where
  "verification_error co cfg query =
     (if cfg = JNull \<or> cfg = JUndefined then Some (unreadable cfg ''facebook'')
      else map_option Error
             (logger_throws co (if handshake_succeeds cfg query then LogInfo else LogWarn)))"

definition acknowledgment :: response where
  "acknowledgment = \<lparr>statusCode = 200, sent = JStr ''EVENT_RECEIVED''\<rparr>"

definition token_configured :: "jsval \<Rightarrow> bool" where
  "token_configured cfg =
     (truthy (own_prop cfg ''facebook'')
      \<and> truthy (own_prop (own_prop cfg ''facebook'') ''pageAccessToken''))"

text \<open>
  The invocation that one messaging event and one change call for (none, or one), and
  the invocations that a payload calls for: entry by entry, the messaging events of an
  entry before its changes.
\<close>

definition messaging_call :: "collaborators \<Rightarrow> jsval \<Rightarrow> invocation list" where
  "messaging_call co event =
     (let senderId = and_prop (own_prop event ''sender'') ''id'';
          recipientId = and_prop (own_prop event ''recipient'') ''id'';
          timestamp = or_else (own_prop event ''timestamp'') (JNum (Date_now co))
      in if truthy (own_prop event ''message'')
         then [HandleMessage (own_prop event ''message'') senderId recipientId timestamp]
         else if truthy (own_prop event ''postback'')
         then [HandlePostback (own_prop event ''postback'') senderId recipientId timestamp]
         else [])"

definition comment_call :: "collaborators \<Rightarrow> jsval \<Rightarrow> jsval \<Rightarrow> invocation list" where
  "comment_call co entry change =
     (let val = or_else (own_prop change ''value'') (JObj []) in
      if own_prop change ''field'' = JStr ''feed'' \<and> own_prop val ''item'' = JStr ''comment''
           \<and> own_prop val ''verb'' = JStr ''add''
      then [HandleComment
              (JObj [(''commentId'', own_prop val ''comment_id''),
                     (''postId'', own_prop val ''post_id''),
                     (''senderId'', and_prop (own_prop val ''from'') ''id''),
                     (''senderName'', and_prop (own_prop val ''from'') ''name''),
                     (''message'', or_else (own_prop val ''message'') (JStr [])),
                     (''createdAt'', or_else (own_prop val ''created_time'') (JNum (Date_now co)))])
              (own_prop entry ''id'')]
      else [])"

definition elements :: "jsval \<Rightarrow> jsval list" where
  "elements v = (case v of JArr xs ps \<Rightarrow> xs | _ \<Rightarrow> [])"

definition entry_calls :: "collaborators \<Rightarrow> jsval \<Rightarrow> invocation list" where
  "entry_calls co entry =
     concat (map (messaging_call co) (elements (own_prop entry ''messaging'')))
     @ concat (map (comment_call co entry) (elements (own_prop entry ''changes'')))"

definition expected_calls :: "collaborators \<Rightarrow> jsval \<Rightarrow> invocation list" where
  "expected_calls co body = concat (map (entry_calls co) (elements (own_prop body ''entry'')))"

text \<open>
  A well-formed payload has the discriminator \<open>page\<close>; its entry list, and the messaging
  and changes lists of every entry, are arrays or absent; and no entry, event or change
  is \<open>null\<close>.
\<close>

definition present :: "jsval \<Rightarrow> bool" where
  "present v = (v \<noteq> JNull \<and> v \<noteq> JUndefined)"

definition list_or_absent :: "(jsval \<Rightarrow> bool) \<Rightarrow> jsval \<Rightarrow> bool" where
  "list_or_absent ok v =
     (case v of JUndefined \<Rightarrow> True | JNull \<Rightarrow> True | JArr xs ps \<Rightarrow> list_all ok xs
              | _ \<Rightarrow> False)"

definition well_formed_entry :: "jsval \<Rightarrow> bool" where
  "well_formed_entry entry =
     (present entry
      \<and> list_or_absent present (own_prop entry ''messaging'')
      \<and> list_or_absent present (own_prop entry ''changes''))"

definition well_formed_payload :: "jsval \<Rightarrow> bool" where
  "well_formed_payload body =
     (own_prop body ''object'' = JStr ''page''
      \<and> list_or_absent well_formed_entry (own_prop body ''entry''))"


text \<open>
  A handler that throws \<open>null\<close> or \<open>undefined\<close> synchronously: the \<open>catch\<close> around
  its invocation cannot read the message of what it caught.
\<close>

fun throws_nothing :: "handler_result \<Rightarrow> bool" where
  "throws_nothing (ThrowsSync (Thrown v)) = (v = JNull \<or> v = JUndefined)"
| "throws_nothing r = False"

text \<open>
  \<open>dispatches co a calls s\<close>: from the state \<open>s\<close> the statement \<open>a\<close> leaves
  \<open>lastRuntimeError\<close> as it was, and either returns, having made exactly the handler
  invocations \<open>calls\<close>, or is ended by the \<open>TypeError\<close> of the \<open>catch\<close> around a
  handler that threw \<open>null\<close> or \<open>undefined\<close>.
\<close>

definition ended_by_nothing :: "collaborators \<Rightarrow> unit outcome \<Rightarrow> bool" where
  "ended_by_nothing co out =
     (\<exists>n v. handler_result_of co n = ThrowsSync (Thrown v) \<and> (v = JNull \<or> v = JUndefined)
          \<and> out = Throws (unreadable v ''message''))"

definition dispatches ::
    "collaborators \<Rightarrow> unit action \<Rightarrow> invocation list \<Rightarrow> server \<Rightarrow> bool" where
  "dispatches co a calls s =
     (lastRuntimeError (snd (a s)) = lastRuntimeError s
      \<and> (fst (a s) = Returns () \<and> invocations (snd (a s)) = invocations s @ calls
         \<or> ended_by_nothing co (fst (a s))))"

section \<open>Concrete disks, engines, settings and requests\<close>

text \<open>
  The closed examples below run the program on a disk that holds the listed files, with
  every read succeeding and every write succeeding (\<open>plain_disk\<close>) or failing
  (\<open>read_only_disk\<close>), and on an engine whose \<open>JSON.parse\<close> reads the listed texts as
  the listed values, reads back the one text it writes for the template, and rejects
  every other text; which decodes a byte below 128 as the character of that code and
  replaces any other byte (by a question mark, which stands for the replacement
  character), and encodes a character as its code; and whose conversion to an array
  length knows the empty string and the empty array only.
\<close>

definition plain_disk :: "(string \<times> bytes) list \<Rightarrow> world" where
  "plain_disk fs =
     \<lparr>files = map_of fs, read_fails = (\<lambda>p. False), write_fails = (\<lambda>p. False),
      read_message = (\<lambda>p. ''ENOENT: no such file or directory, open '' @ p),
      write_message = (\<lambda>p. ''EROFS: read-only file system, open '' @ p),
      console = []\<rparr>"

definition read_only_disk :: "(string \<times> bytes) list \<Rightarrow> world" where
  "read_only_disk fs =
     \<lparr>files = map_of fs, read_fails = (\<lambda>p. False), write_fails = (\<lambda>p. True),
      read_message = (\<lambda>p. ''ENOENT: no such file or directory, open '' @ p),
      write_message = (\<lambda>p. ''EROFS: read-only file system, open '' @ p),
      console = []\<rparr>"

definition engine :: "(string \<times> jsval) list \<Rightarrow> runtime" where
  "engine table =
     \<lparr>JSON_parse = map_of ((''[template]'', minimalTemplate) # table),
      JSON_stringify = (\<lambda>v. if v = minimalTemplate then ''[template]'' else ''[other]''),
      utf8_decode = map (\<lambda>c. if (of_char c :: nat) < 128 then c else CHR ''?''),
      utf8_encode = (\<lambda>s. s),
      array_length_of = (\<lambda>v. if v = JStr [] \<or> v = JArr [] [] then Some 0 else None)\<rparr>"

definition sample_settings :: jsval where
  "sample_settings = JObj [
     (''bot'', JObj [(''prefix'', JStr ''!'')]),
     (''facebook'', JObj [(''pageAccessToken'', JStr ''token''), (''pageId'', JStr [])]),
     (''security'', JObj [(''allowedDomains'', JArr [JStr ''a.example''] [])])]"


text \<open>
  Collaborators that never fail, a process that has just started, and a payload with two
  messaging events and one new comment.
\<close>

definition quiet :: collaborators where
  "quiet = \<lparr>logger_throws = (\<lambda>lvl. None), handlers_missing = None,
             handler_result_of = (\<lambda>n. Fulfils), Date_now = 1700000000000\<rparr>"

definition fresh_server :: "world \<Rightarrow> server" where
  "fresh_server w = \<lparr>config = fallbackConfig, lastRuntimeError = JNull, logged = [],
                      invocations = [], rejections = [], disk = w\<rparr>"

definition sample_payload :: jsval where
  "sample_payload = JObj [
     (''object'', JStr ''page''),
     (''entry'', JArr [
        JObj [(''id'', JStr ''page-1''),
              (''messaging'', JArr [
                 JObj [(''sender'', JObj [(''id'', JStr ''u1'')]),
                       (''recipient'', JObj [(''id'', JStr ''page-1'')]),
                       (''timestamp'', JNum 11),
                       (''message'', JObj [(''text'', JStr ''hi'')])],
                 JObj [(''sender'', JObj [(''id'', JStr ''u2'')]),
                       (''recipient'', JObj [(''id'', JStr ''page-1'')]),
                       (''timestamp'', JNum 12),
                       (''postback'', JObj [(''payload'', JStr ''START'')])]] []),
              (''changes'', JArr [
                 JObj [(''field'', JStr ''feed''),
                       (''value'', JObj [(''item'', JStr ''comment''), (''verb'', JStr ''add''),
                                        (''comment_id'', JStr ''c1''), (''post_id'', JStr ''p1''),
                                        (''from'', JObj [(''id'', JStr ''u3''), (''name'', JStr ''Ann'')]),
                                        (''message'', JStr ''nice''),
                                        (''created_time'', JNum 13)])]] [])]] [])]"

section \<open>Facts about the settings store\<close>

declare mergeDeep.simps [simp del] check.simps [simp del]

lemma getConfig_eq:
  "getConfig rt w =
     (mergeDeep rt fallbackConfig (fst (loadConfigRaw rt w)), snd (loadConfigRaw rt w))"
  by (simp add: getConfig_def split_def Let_def)

lemma getMissingConfigKeys_eq:
  "getMissingConfigKeys rt w =
     (check minimalTemplate (fst (loadConfigRaw rt w)) [] [], snd (loadConfigRaw rt w))"
  by (simp add: getMissingConfigKeys_def split_def Let_def)

lemma paths_differ: "backupPath \<noteq> configPath"
  by (simp add: backupPath_def)

lemma merge_template_defaults:
  "mergeDeep rt fallbackConfig minimalTemplate = Returns fallbackConfig"
  by (simp add: mergeDeep.simps fallbackConfig_def minimalTemplate_def Object_keys_def
      own_prop_def has_own_def store_def)

subsection \<open>What loadConfigRaw returns, by state of the disk\<close>

lemma loadConfigRaw_parsed:
  "files w configPath = Some b \<Longrightarrow> \<not> read_fails w configPath
   \<Longrightarrow> JSON_parse rt (utf8_decode rt b) = Some v
   \<Longrightarrow> loadConfigRaw rt w = (v, w)"
  by (simp add: loadConfigRaw_def ensureConfigFile_def existsSync_def readFileSync_def)

lemma loadConfigRaw_invalid:
  assumes "files w configPath = Some b" "\<not> read_fails w configPath"
    "JSON_parse rt (utf8_decode rt b) = None"
  shows "fst (loadConfigRaw rt w) = minimalTemplate"
  using assms
  by (simp add: loadConfigRaw_def ensureConfigFile_def existsSync_def readFileSync_def
      writeFileSync_def Let_def console_out_def)

lemma loadConfigRaw_invalid_world:
  assumes "files w configPath = Some b" "\<not> read_fails w configPath"
    "JSON_parse rt (utf8_decode rt b) = None"
  shows "\<not> write_fails w backupPath \<Longrightarrow> \<not> write_fails w configPath \<Longrightarrow>
           snd (loadConfigRaw rt w) =
             w\<lparr>files := (files w)
                    (backupPath := Some (utf8_encode rt (utf8_decode rt b)),
                     configPath := Some (utf8_encode rt (JSON_stringify rt minimalTemplate))),
               console := console w @ [invalid_json_warning]\<rparr>"
    and "\<not> write_fails w backupPath \<Longrightarrow> write_fails w configPath \<Longrightarrow>
           snd (loadConfigRaw rt w) =
             w\<lparr>files := (files w)(backupPath := Some (utf8_encode rt (utf8_decode rt b))),
               console := console w @ [invalid_json_warning,
                            ''Failed to read config.json: '' @ write_message w configPath]\<rparr>"
    and "write_fails w backupPath \<Longrightarrow>
           snd (loadConfigRaw rt w) =
             w\<lparr>console := console w
                    @ [''Failed to read config.json: '' @ write_message w backupPath]\<rparr>"
  using assms
  by (simp_all add: loadConfigRaw_def ensureConfigFile_def existsSync_def readFileSync_def
      writeFileSync_def Let_def console_out_def)

lemma loadConfigRaw_unreadable:
  assumes "read_fails w configPath"
  shows "fst (loadConfigRaw rt w) = minimalTemplate"
  using assms
  by (simp add: loadConfigRaw_def ensureConfigFile_def existsSync_def readFileSync_def
      writeFileSync_def Let_def console_out_def)

lemma loadConfigRaw_absent:
  assumes "files w configPath = None"
    and "JSON_parse rt (utf8_decode rt (utf8_encode rt (JSON_stringify rt minimalTemplate)))
           = Some minimalTemplate"
  shows "fst (loadConfigRaw rt w) = minimalTemplate"
  using assms
  by (simp add: loadConfigRaw_def ensureConfigFile_def existsSync_def readFileSync_def
      writeFileSync_def Let_def console_out_def)

lemma disk_simps:
  "files (plain_disk fs) = map_of fs"
  "read_fails (plain_disk fs) p = False"
  "write_fails (plain_disk fs) p = False"
  "console (plain_disk fs) = []"
  "files (read_only_disk fs) = map_of fs"
  "read_fails (read_only_disk fs) p = False"
  "write_fails (read_only_disk fs) p = True"
  "write_message (read_only_disk fs) p = ''EROFS: read-only file system, open '' @ p"
  "console (read_only_disk fs) = []"
  by (simp_all add: plain_disk_def read_only_disk_def)

lemma engine_simps:
  "utf8_encode (engine table) s = s"
  "JSON_stringify (engine table) minimalTemplate = ''[template]''"
  "list_all (\<lambda>c. (of_char c :: nat) < 128) t \<Longrightarrow> utf8_decode (engine table) t = t"
proof -
  have "list_all (\<lambda>c. (of_char c :: nat) < 128) t
        \<Longrightarrow> map (\<lambda>c. if (of_char c :: nat) < 128 then c else CHR ''?'') t = t" for t
    by (induction t) simp_all
  then show "list_all (\<lambda>c. (of_char c :: nat) < 128) t \<Longrightarrow> utf8_decode (engine table) t = t"
    by (simp add: engine_def)
qed (simp_all add: engine_def)

lemma engine_reads:
  "list_all (\<lambda>c. (of_char c :: nat) < 128) txt \<Longrightarrow>
     JSON_parse (engine table) (utf8_decode (engine table) txt) =
       map_of ((''[template]'', minimalTemplate) # table) txt"
  by (simp add: engine_simps) (simp add: engine_def)

lemma sample_loaded:
  "loadConfigRaw (engine ((''S'', sample_settings) # rest)) (plain_disk [(configPath, ''S'')])
     = (sample_settings, plain_disk [(configPath, ''S'')])"
  by (rule loadConfigRaw_parsed [of _ "''S''"]) (simp_all add: disk_simps engine_reads)


subsection \<open>A settings file that holds null\<close>

text \<open>
  Claim C2 says that no operation of the settings store ever raises, whatever the
  settings file holds, \<open>null\<close> included.  The code does raise: when the settings file is
  readable and its text parses to \<open>null\<close>, \<open>loadConfigRaw\<close> returns \<open>null\<close>,
  \<open>getConfig\<close> throws the \<open>TypeError\<close> of \<open>Object.keys(null)\<close> inside \<open>mergeDeep\<close>,
  and \<open>getMissingConfigKeys\<close> throws the \<open>TypeError\<close> of the read \<open>obj[key]\<close> on
  \<open>null\<close> inside \<open>check\<close>.
\<close>

theorem null_settings_file_throws:
  assumes "files w configPath = Some txt"
    and "\<not> read_fails w configPath"
    and "JSON_parse rt (utf8_decode rt txt) = Some JNull"
  shows "fst (getConfig rt w) = Throws (TypeError ''Cannot convert undefined or null to object'')
       \<and> (\<exists>m. fst (getMissingConfigKeys rt w) = Throws (TypeError m))"
  using loadConfigRaw_parsed [OF assms]
  by (simp add: getConfig_eq getMissingConfigKeys_eq mergeDeep.simps check.simps Object_keys_def
      minimalTemplate_def own_prop_def get_prop_def unreadable_def)

text \<open>The settings file with the four characters \<open>null\<close>, on a disk without faults.\<close>

theorem null_settings_file_throws_witness:
  "files (plain_disk [(configPath, ''null'')]) configPath = Some ''null''
   \<and> \<not> read_fails (plain_disk [(configPath, ''null'')]) configPath
   \<and> JSON_parse (engine [(''null'', JNull)]) (utf8_decode (engine [(''null'', JNull)]) ''null'')
       = Some JNull
   \<and> fst (getConfig (engine [(''null'', JNull)]) (plain_disk [(configPath, ''null'')]))
       = Throws (TypeError ''Cannot convert undefined or null to object'')
   \<and> (\<exists>m. fst (getMissingConfigKeys (engine [(''null'', JNull)])
                  (plain_disk [(configPath, ''null'')])) = Throws (TypeError m))"
  using null_settings_file_throws
    [of "plain_disk [(configPath, ''null'')]" "''null''" "engine [(''null'', JNull)]"]
  by (simp add: disk_simps engine_reads)

subsection \<open>A settings file that is not JSON\<close>

text \<open>
  Claim C8, as stated (a settings file that is not valid JSON always yields the backup
  with the original bytes, the rewritten file and the merged template), fails in two
  ways.  On a disk that cannot be written the backup write throws, the outer \<open>catch\<close>
  only warns, and neither the backup nor the rewrite exists afterwards.  And the backup
  is written from the text that \<open>readFileSync(configPath, 'utf8')\<close> has decoded, not
  from the bytes of the file: for a file with bytes that are not UTF-8 the backup holds
  other bytes, and the original ones are then overwritten.
\<close>

theorem invalid_json_read_only_counterexample:
  "files (read_only_disk [(configPath, ''{oops'')]) configPath = Some ''{oops''
   \<and> JSON_parse (engine []) (utf8_decode (engine []) ''{oops'') = None
   \<and> files (snd (getConfig (engine []) (read_only_disk [(configPath, ''{oops'')]))) backupPath
       = None
   \<and> files (snd (getConfig (engine []) (read_only_disk [(configPath, ''{oops'')]))) configPath
       = Some ''{oops''
   \<and> files (plain_disk [(configPath, [CHR 0xFF, CHR 0xFE])]) configPath
       = Some [CHR 0xFF, CHR 0xFE]
   \<and> JSON_parse (engine []) (utf8_decode (engine []) [CHR 0xFF, CHR 0xFE]) = None
   \<and> files (snd (getConfig (engine []) (plain_disk [(configPath, [CHR 0xFF, CHR 0xFE])])))
        backupPath = Some ''??''
   \<and> ''??'' \<noteq> [CHR 0xFF, CHR 0xFE]
   \<and> files (snd (getConfig (engine []) (plain_disk [(configPath, [CHR 0xFF, CHR 0xFE])])))
        configPath = Some ''[template]''"
  by (simp add: getConfig_def loadConfigRaw_def ensureConfigFile_def
      existsSync_def readFileSync_def writeFileSync_def Let_def console_out_def split_def
      read_only_disk_def plain_disk_def engine_def backupPath_def configPath_def)

text \<open>
  Claim C8, amended: when the settings file is readable and the text decoded from it is
  not valid JSON, \<open>getConfig\<close> returns the template merged over the defaults, which is
  the defaults themselves.  When the backup path and the settings path can both be
  written, the backup holds the decoded text encoded again (the original bytes whenever
  decoding and encoding gives them back, as it does for a file that is UTF-8), the
  settings file holds the serialized template, and the console has the warning that
  names the backup.  When the backup can be written and the settings file cannot, the
  backup is made, the settings file is left as it was, and the console has that warning
  and the warning of the failed write.  When the backup cannot be written, no file
  changes and the console has the warning of the failed write.
\<close>

theorem invalid_json_load:
  assumes "files w configPath = Some b"
    and "\<not> read_fails w configPath"
    and "JSON_parse rt (utf8_decode rt b) = None"
  shows "fst (getConfig rt w) = mergeDeep rt fallbackConfig minimalTemplate
       \<and> mergeDeep rt fallbackConfig minimalTemplate = Returns fallbackConfig
       \<and> (\<not> write_fails w backupPath \<and> \<not> write_fails w configPath \<longrightarrow>
            snd (getConfig rt w) =
              w\<lparr>files := (files w)
                     (backupPath := Some (utf8_encode rt (utf8_decode rt b)),
                      configPath := Some (utf8_encode rt (JSON_stringify rt minimalTemplate))),
                console := console w @ [invalid_json_warning]\<rparr>)
       \<and> (\<not> write_fails w backupPath \<and> write_fails w configPath \<longrightarrow>
            snd (getConfig rt w) =
              w\<lparr>files := (files w)(backupPath := Some (utf8_encode rt (utf8_decode rt b))),
                console := console w @ [invalid_json_warning,
                             ''Failed to read config.json: '' @ write_message w configPath]\<rparr>)
       \<and> (write_fails w backupPath \<longrightarrow>
            snd (getConfig rt w) =
              w\<lparr>console := console w
                     @ [''Failed to read config.json: '' @ write_message w backupPath]\<rparr>)
       \<and> (\<not> write_fails w backupPath \<and> utf8_encode rt (utf8_decode rt b) = b \<longrightarrow>
            files (snd (getConfig rt w)) backupPath = Some b)"
proof -
  note world = loadConfigRaw_invalid_world [OF assms]
  have "files (snd (loadConfigRaw rt w)) backupPath = Some b"
    if "\<not> write_fails w backupPath" "utf8_encode rt (utf8_decode rt b) = b"
    using that world(1,2) paths_differ by (cases "write_fails w configPath") simp_all
  then show ?thesis
    using loadConfigRaw_invalid [OF assms] world
    by (simp add: getConfig_eq merge_template_defaults)
qed

text \<open>
  A settings file with the text \<open>{oops\<close>, on a disk without faults and on a disk whose
  files cannot be written.
\<close>

theorem invalid_json_load_witness:
  "files (plain_disk [(configPath, ''{oops'')]) configPath = Some ''{oops''
   \<and> \<not> read_fails (plain_disk [(configPath, ''{oops'')]) configPath
   \<and> JSON_parse (engine []) (utf8_decode (engine []) ''{oops'') = None
   \<and> \<not> write_fails (plain_disk [(configPath, ''{oops'')]) backupPath
   \<and> \<not> write_fails (plain_disk [(configPath, ''{oops'')]) configPath
   \<and> utf8_encode (engine []) (utf8_decode (engine []) ''{oops'') = ''{oops''
   \<and> fst (getConfig (engine []) (plain_disk [(configPath, ''{oops'')])) = Returns fallbackConfig
   \<and> files (snd (getConfig (engine []) (plain_disk [(configPath, ''{oops'')]))) backupPath
       = Some ''{oops''
   \<and> files (snd (getConfig (engine []) (plain_disk [(configPath, ''{oops'')]))) configPath
       = Some ''[template]''
   \<and> console (snd (getConfig (engine []) (plain_disk [(configPath, ''{oops'')])))
       = [invalid_json_warning]
   \<and> write_fails (read_only_disk [(configPath, ''{oops'')]) backupPath
   \<and> files (snd (getConfig (engine []) (read_only_disk [(configPath, ''{oops'')])))
       = files (read_only_disk [(configPath, ''{oops'')])
   \<and> console (snd (getConfig (engine []) (read_only_disk [(configPath, ''{oops'')])))
       = [''Failed to read config.json: EROFS: read-only file system, open src/config.json.bak'']"
proof -
  have dec: "utf8_decode (engine []) ''{oops'' = ''{oops''"
    by (simp add: engine_def)
  have inv: "JSON_parse (engine []) (utf8_decode (engine []) ''{oops'') = None"
    by (simp add: engine_def)
  have enc: "utf8_encode (engine []) (utf8_decode (engine []) ''{oops'') = ''{oops''"
    by (simp add: engine_def)
  have ok: "files (plain_disk [(configPath, ''{oops'')]) configPath = Some ''{oops''"
      "\<not> read_fails (plain_disk [(configPath, ''{oops'')]) configPath"
      "\<not> write_fails (plain_disk [(configPath, ''{oops'')]) backupPath"
      "\<not> write_fails (plain_disk [(configPath, ''{oops'')]) configPath"
    by (simp_all add: plain_disk_def)
  have ro: "files (read_only_disk [(configPath, ''{oops'')]) configPath = Some ''{oops''"
      "\<not> read_fails (read_only_disk [(configPath, ''{oops'')]) configPath"
      "write_fails (read_only_disk [(configPath, ''{oops'')]) backupPath"
    by (simp_all add: read_only_disk_def)
  from invalid_json_load [OF ok(1,2) inv] ok(3,4) enc
  have 1: "fst (getConfig (engine []) (plain_disk [(configPath, ''{oops'')])) = Returns fallbackConfig"
    and 2: "files (snd (getConfig (engine []) (plain_disk [(configPath, ''{oops'')]))) backupPath
       = Some ''{oops''"
    and 3: "files (snd (getConfig (engine []) (plain_disk [(configPath, ''{oops'')]))) configPath
       = Some ''[template]''"
    and 4: "console (snd (getConfig (engine []) (plain_disk [(configPath, ''{oops'')])))
       = [invalid_json_warning]"
    by (simp_all add: disk_simps engine_simps paths_differ paths_differ [symmetric])
  from invalid_json_load [OF ro(1,2) inv] ro(3)
  have 5: "files (snd (getConfig (engine []) (read_only_disk [(configPath, ''{oops'')])))
       = files (read_only_disk [(configPath, ''{oops'')])"
    and 6: "console (snd (getConfig (engine []) (read_only_disk [(configPath, ''{oops'')])))
       = [''Failed to read config.json: EROFS: read-only file system, open src/config.json.bak'']"
    by (simp_all add: disk_simps backupPath_def configPath_def)
  from ok inv enc 1 2 3 4 ro(3) 5 6 show ?thesis
    by blast
qed

subsection \<open>The missing keys\<close>


lemma distinct_keys_of_member:
  "distinct_keys_of kvs \<Longrightarrow> (k, v) \<in> set kvs \<Longrightarrow> distinct_keys v"
  by (induction kvs) auto


lemma is_plain_object':
  "(truthy v \<and> typeof_object v \<and> \<not> isArray v) = (\<exists>kvs. v = JObj kvs)"
  by (cases v) simp_all













subsection \<open>The indices of an array\<close>

lemma decimal_snoc: "decimal (k @ [c]) = 10 * decimal k + (of_char c - 48)"
  by (simp add: decimal_def)

lemma decimal_index_key: "decimal (index_key n) = n"
proof (induction n rule: index_key.induct)
  case (1 n)
  show ?case
  proof (cases "n < 10")
    case True
    then show ?thesis
      by (subst index_key.simps) (simp add: decimal_def)
  next
    case False
    with 1 have "decimal (index_key (n div 10)) = n div 10" by simp
    with False show ?thesis
      by (subst index_key.simps) (simp add: decimal_snoc)
  qed
qed

lemma index_key_inj: "index_key a = index_key b \<Longrightarrow> a = b"
  by (metis decimal_index_key)

lemma array_index_key: "array_index (index_key n) = (if n < 4294967295 then Some n else None)"
  by (simp add: array_index_def decimal_index_key)

lemma array_index_Some: "array_index k = Some n \<Longrightarrow> k = index_key n \<and> n < 4294967295"
  by (auto simp: array_index_def split: if_splits)

lemma index_keys_lookup:
  "i < length xs \<Longrightarrow> map_of (zip (map index_key [0..<length xs]) xs) (index_key i) = Some (xs ! i)"
  "\<forall>i < length xs. k \<noteq> index_key i
     \<Longrightarrow> map_of (zip (map index_key [0..<length xs]) xs) k = None"
proof -
  have "distinct (map index_key [0..<length xs])"
    by (auto simp: distinct_map inj_on_def dest: index_key_inj)
  then have "map_of (zip (map index_key [0..<length xs]) xs) (map index_key [0..<length xs] ! i)
                 = Some (xs ! i)" if "i < length xs"
    using that by (intro map_of_zip_nth) simp_all
  then show "i < length xs
      \<Longrightarrow> map_of (zip (map index_key [0..<length xs]) xs) (index_key i) = Some (xs ! i)"
    by simp
  assume "\<forall>i < length xs. k \<noteq> index_key i"
  then have "k \<notin> set (map index_key [0..<length xs])"
    by auto
  then show "map_of (zip (map index_key [0..<length xs]) xs) k = None"
    by (subst map_of_zip_is_None) simp_all
qed

lemma lookup_array:
  assumes "length xs \<le> 4294967295"
  shows "lookup (JArr xs ps) k =
           (case array_index k of
              Some n \<Rightarrow> if n < length xs then Some (xs ! n) else map_of ps k
            | None \<Rightarrow> map_of ps k)"
proof (cases "array_index k")
  case None
  have "\<forall>i < length xs. k \<noteq> index_key i"
  proof (intro allI impI notI)
    fix i assume "i < length xs" "k = index_key i"
    with assms None show False
      by (simp add: array_index_key)
  qed
  note z = index_keys_lookup(2) [OF this]
  from None show ?thesis
    by (simp add: lookup_def map_add_def z)
next
  case (Some n)
  then have k: "k = index_key n" and "n < 4294967295"
    using array_index_Some by blast+
  show ?thesis
  proof (cases "n < length xs")
    case True
    note z = index_keys_lookup(1) [OF True]
    from Some True k show ?thesis
      by (simp add: lookup_def map_add_def z)
  next
    case False
    with k have "\<forall>i < length xs. k \<noteq> index_key i"
      by (auto dest: index_key_inj)
    note z = index_keys_lookup(2) [OF this]
    from Some False show ?thesis
      by (simp add: lookup_def map_add_def z)
  qed
qed

lemma lookup_object [simp]: "lookup (JObj kvs) k = map_of kvs k"
  by (simp add: lookup_def)

lemma own_prop_lookup: "own_prop v k = (case lookup v k of None \<Rightarrow> JUndefined | Some x \<Rightarrow> x)"
  by (simp add: own_prop_def lookup_def split: option.splits)

lemma has_own_lookup: "has_own v k = (lookup v k \<noteq> None)"
  by (simp add: has_own_def lookup_def split: option.splits)

lemma get_path_lookup:
  "get_path v (k # ks) = (case lookup v k of None \<Rightarrow> None | Some x \<Rightarrow> get_path x ks)"
  by (simp add: lookup_def split: option.splits)

subsection \<open>Writing on a target\<close>

lemma target_kind: "target t \<Longrightarrow> plain_object t \<or> isArray t"
  by (cases t) (simp_all add: target_def)

lemma store_kind [simp]:
  "plain_object (store t k v) = plain_object t" "isArray (store t k v) = isArray t"
  by (cases t; simp add: store_def array_put_def split: option.splits)+

lemma target_store:
  assumes "target t" "k \<noteq> ''__proto__''"
  shows "target (store t k v)"
proof (cases t)
  case (JObj kvs)
  with assms show ?thesis
    by (simp add: target_def store_def update_conv')
next
  case (JArr xs ps)
  with assms have len: "length xs \<le> 4294967295" and named: "\<forall>k \<in> fst ` set ps. array_index k = None"
    and np: "map_of ps ''__proto__'' = None"
    by (simp_all add: target_def)
  show ?thesis
  proof (cases "array_index k")
    case None
    have "\<forall>k' \<in> fst ` set (AList.update k v ps). array_index k' = None"
    proof
      fix k' assume "k' \<in> fst ` set (AList.update k v ps)"
      then have "k' = k \<or> k' \<in> fst ` set ps"
        by (simp add: dom_update)
      with None named show "array_index k' = None" by auto
    qed
    with None JArr len np assms(2) show ?thesis
      by (simp add: target_def store_def array_put_def update_conv')
  next
    case (Some n)
    then have "n < 4294967295" using array_index_Some by blast
    with Some JArr len named np show ?thesis
      by (simp add: target_def store_def array_put_def)
  qed
qed (use assms in \<open>simp_all add: target_def\<close>)

lemma lookup_store_same:
  assumes "target t"
  shows "lookup (store t k v) k = Some v"
proof (cases t)
  case (JObj kvs)
  then show ?thesis by (simp add: store_def update_conv')
next
  case (JArr xs ps)
  with assms have len: "length xs \<le> 4294967295"
    by (simp add: target_def)
  show ?thesis
  proof (cases "array_index k")
    case None
    with JArr len show ?thesis
      by (simp add: store_def array_put_def lookup_array update_conv')
  next
    case (Some n)
    then have "n < 4294967295" using array_index_Some by blast
    with Some JArr len show ?thesis
      by (simp add: store_def array_put_def lookup_array nth_append)
  qed
qed (use assms in \<open>simp_all add: target_def\<close>)

lemma lookup_store_other:
  assumes "target t" "k' \<noteq> k"
  shows "lookup t k' = Some y \<Longrightarrow> lookup (store t k v) k' = Some y"
    and "own_prop (store t k v) k' = own_prop t k'"
    and "plain_object t \<or> array_index k' = None \<Longrightarrow> lookup (store t k v) k' = lookup t k'"
proof -
  have "(lookup t k' = Some y \<longrightarrow> lookup (store t k v) k' = Some y)
      \<and> own_prop (store t k v) k' = own_prop t k'
      \<and> (plain_object t \<or> array_index k' = None \<longrightarrow> lookup (store t k v) k' = lookup t k')"
  proof (cases t)
    case (JObj kvs)
    with assms(2) show ?thesis
      by (simp add: store_def own_prop_lookup update_conv')
  next
    case (JArr xs ps)
    with assms have len: "length xs \<le> 4294967295"
      and named: "\<forall>k \<in> fst ` set ps. array_index k = None"
      by (simp_all add: target_def)
    have absent: "map_of ps j = None" if "array_index j \<noteq> None" for j
    proof (rule ccontr)
      assume "map_of ps j \<noteq> None"
      then have "j \<in> fst ` set ps"
        by (auto dest: map_of_SomeD intro: rev_image_eqI)
      with named that show False by auto
    qed
    show ?thesis
    proof (cases "array_index k")
      case None
      with JArr len assms(2) show ?thesis
        by (simp add: store_def array_put_def lookup_array own_prop_lookup update_conv'
            split: option.splits)
    next
      case (Some n)
      then have n: "n < 4294967295" and k: "k = index_key n"
        using array_index_Some by blast+
      show ?thesis
      proof (cases "array_index k'")
        case None
        with Some JArr len n show ?thesis
          by (simp add: store_def array_put_def lookup_array own_prop_lookup)
      next
        case (Some n')
        then have k': "k' = index_key n'" using array_index_Some by blast
        with k assms(2) have ne: "n' \<noteq> n" by auto
        from Some have none: "map_of ps k' = None"
          using absent [of k'] by simp
        from Some \<open>array_index k = Some n\<close> JArr len n ne none show ?thesis
          by (auto simp: store_def array_put_def lookup_array own_prop_lookup nth_append
              nth_list_update)
      qed
    qed
  qed (use assms in \<open>simp_all add: target_def\<close>)
  then show "lookup t k' = Some y \<Longrightarrow> lookup (store t k v) k' = Some y"
    and "own_prop (store t k v) k' = own_prop t k'"
    and "plain_object t \<or> array_index k' = None \<Longrightarrow> lookup (store t k v) k' = lookup t k'"
    by blast+
qed

lemma not_an_index: "array_index ''__proto__'' = None" "array_index ''length'' = None"
  by (simp_all add: array_index_def decimal_def index_key.simps)

subsection \<open>One step of the loop of mergeDeep\<close>

lemma plain_test: "(truthy v \<and> typeof_object v \<and> \<not> isArray v) = plain_object v"
  by (cases v) simp_all

lemma target_no_proto: "target t \<Longrightarrow> lookup t ''__proto__'' = None"
  by (cases t) (simp_all add: target_def lookup_array not_an_index)

lemma mergeKeys_proto:
  assumes "target t"
  shows "mergeKeys rt t s (''__proto__'' # ks) =
           (if harmless (own_prop s ''__proto__'') then mergeKeys rt t s ks else Unmodelled)"
  using target_kind [OF assms] target_no_proto [OF assms]
  by (auto simp: has_own_lookup)

lemma mergeKeys_object:
  assumes "target t" "key \<noteq> ''__proto__''" "plain_object (own_prop s key)"
    "\<not> (isArray t \<and> key = ''length'')"
  shows "mergeKeys rt t s (key # ks) =
           (case mergeDeep rt (sub_target (own_prop t key)) (own_prop s key) of
              Returns m \<Rightarrow> mergeKeys rt (store t key m) s ks
            | Throws e \<Rightarrow> Throws e
            | Unmodelled \<Rightarrow> Unmodelled)"
  using target_kind [OF assms(1)] assms(2-4)
  by (auto simp: plain_test sub_target_def)

lemma mergeKeys_leaf:
  assumes "target t" "key \<noteq> ''__proto__''" "\<not> plain_object (own_prop s key)"
    "\<not> (isArray t \<and> key = ''length'')"
  shows "mergeKeys rt t s (key # ks) = mergeKeys rt (store t key (own_prop s key)) s ks"
  using target_kind [OF assms(1)] assms(2-4)
  by (auto simp: plain_test)

text \<open>
  The loop of \<open>mergeDeep\<close>, key by key: the target keeps its kind; a key it does not
  visit keeps its value, and so does the key \<open>__proto__\<close>; a key whose source value is
  a plain object receives the merge of that object into the key's old value (or into
  \<open>{}\<close>); any other key receives the source value itself.
\<close>

lemma mergeKeys_result:
  assumes "mergeKeys rt t s ks = Returns m" "distinct ks" "target t"
    "isArray t \<longrightarrow> ''length'' \<notin> set ks"
  shows "target m \<and> plain_object m = plain_object t \<and> isArray m = isArray t
       \<and> (\<forall>k. k \<notin> set ks \<or> k = ''__proto__'' \<longrightarrow>
             own_prop m k = own_prop t k
           \<and> (\<forall>y. lookup t k = Some y \<longrightarrow> lookup m k = Some y)
           \<and> (plain_object t \<or> array_index k = None \<longrightarrow> lookup m k = lookup t k))
       \<and> (\<forall>k \<in> set ks. k \<noteq> ''__proto__'' \<longrightarrow>
             (plain_object (own_prop s k) \<longrightarrow>
                (\<exists>m'. mergeDeep rt (sub_target (own_prop t k)) (own_prop s k) = Returns m'
                     \<and> lookup m k = Some m'))
           \<and> (\<not> plain_object (own_prop s k) \<longrightarrow> lookup m k = Some (own_prop s k)))"
  using assms
proof (induction ks arbitrary: t)
  case Nil
  then show ?case by simp
next
  case (Cons key ks)
  then have fresh: "key \<notin> set ks" and dist: "distinct ks" and tgt: "target t"
    and len: "isArray t \<longrightarrow> ''length'' \<notin> set ks"
    and nolen: "\<not> (isArray t \<and> key = ''length'')"
    by auto
  show ?case
  proof (cases "key = ''__proto__''")
    case True
    with Cons.prems(1) tgt have "mergeKeys rt t s ks = Returns m"
      by (simp add: mergeKeys_proto del: mergeKeys.simps split: if_splits)
    from Cons.IH [OF this dist tgt len] True show ?thesis
      by auto
  next
    case False
    define v1 where "v1 = (if plain_object (own_prop s key)
        then (case mergeDeep rt (sub_target (own_prop t key)) (own_prop s key) of
                Returns m1 \<Rightarrow> m1 | _ \<Rightarrow> JUndefined)
        else own_prop s key)"
    have rest: "mergeKeys rt (store t key v1) s ks = Returns m"
      and val: "plain_object (own_prop s key) \<longrightarrow>
                  mergeDeep rt (sub_target (own_prop t key)) (own_prop s key) = Returns v1"
    proof -
      show "mergeKeys rt (store t key v1) s ks = Returns m"
      proof (cases "plain_object (own_prop s key)")
        case True
        with Cons.prems(1) show ?thesis
          by (simp add: mergeKeys_object [OF tgt False True nolen] v1_def
              del: mergeKeys.simps split: outcome.splits)
      next
        case plain: False
        with Cons.prems(1) show ?thesis
          by (simp add: mergeKeys_leaf [OF tgt False plain nolen] v1_def del: mergeKeys.simps)
      qed
      show "plain_object (own_prop s key) \<longrightarrow>
                  mergeDeep rt (sub_target (own_prop t key)) (own_prop s key) = Returns v1"
      proof
        assume plain: "plain_object (own_prop s key)"
        with Cons.prems(1) show
          "mergeDeep rt (sub_target (own_prop t key)) (own_prop s key) = Returns v1"
          by (simp add: mergeKeys_object [OF tgt False plain nolen] v1_def
              del: mergeKeys.simps split: outcome.splits)
      qed
    qed
    let ?t1 = "store t key v1"
    have tgt1: "target ?t1"
      using target_store [OF tgt False] .
    have len1: "isArray ?t1 \<longrightarrow> ''length'' \<notin> set ks"
      using len by simp
    note IH = Cons.IH [OF rest dist tgt1 len1]
    note other = lookup_store_other [OF tgt, of _ key]
    have here: "lookup m key = Some v1"
      using IH fresh lookup_store_same [OF tgt, of key v1] by blast
    have kept: "own_prop m k = own_prop t k
           \<and> (\<forall>y. lookup t k = Some y \<longrightarrow> lookup m k = Some y)
           \<and> (plain_object t \<or> array_index k = None \<longrightarrow> lookup m k = lookup t k)"
      if "k \<notin> set (key # ks) \<or> k = ''__proto__''" for k
    proof -
      from that False have ne: "k \<noteq> key" and k: "k \<notin> set ks \<or> k = ''__proto__''"
        by auto
      from IH k have a: "own_prop m k = own_prop ?t1 k"
        and b: "\<forall>y. lookup ?t1 k = Some y \<longrightarrow> lookup m k = Some y"
        and c: "plain_object ?t1 \<or> array_index k = None \<longrightarrow> lookup m k = lookup ?t1 k"
        by blast+
      from a other(2) [OF ne] have "own_prop m k = own_prop t k" by simp
      moreover from b other(1) [OF ne] have "\<forall>y. lookup t k = Some y \<longrightarrow> lookup m k = Some y"
        by blast
      moreover from c other(3) [OF ne]
      have "plain_object t \<or> array_index k = None \<longrightarrow> lookup m k = lookup t k"
        by auto
      ultimately show ?thesis by blast
    qed
    have processed: "(plain_object (own_prop s k) \<longrightarrow>
                (\<exists>m'. mergeDeep rt (sub_target (own_prop t k)) (own_prop s k) = Returns m'
                     \<and> lookup m k = Some m'))
           \<and> (\<not> plain_object (own_prop s k) \<longrightarrow> lookup m k = Some (own_prop s k))"
      if "k \<in> set (key # ks)" "k \<noteq> ''__proto__''" for k
    proof (cases "k = key")
      case True
      with here val show ?thesis
        by (auto simp: v1_def)
    next
      case ne: False
      with that have "k \<in> set ks" by simp
      with IH that(2) have "(plain_object (own_prop s k) \<longrightarrow>
                (\<exists>m'. mergeDeep rt (sub_target (own_prop ?t1 k)) (own_prop s k) = Returns m'
                     \<and> lookup m k = Some m'))
           \<and> (\<not> plain_object (own_prop s k) \<longrightarrow> lookup m k = Some (own_prop s k))"
        by blast
      with other(2) [OF ne] show ?thesis by simp
    qed
    from IH have "target m \<and> plain_object m = plain_object t \<and> isArray m = isArray t"
      by simp
    with kept processed show ?thesis
      by blast
  qed
qed

lemma mergeDeep_Returns:
  assumes "mergeDeep rt t s = Returns m"
  obtains skvs where "own_props s = Some skvs"
    and "mergeKeys rt t s (remdups (map fst skvs)) = Returns m"
  using assms
  by (auto simp: mergeDeep.simps Object_keys_def split: option.splits outcome.splits)

lemma key_listed:
  "own_props s = Some skvs \<Longrightarrow> (k \<in> set (remdups (map fst skvs))) = (lookup s k \<noteq> None)"
  by (auto simp: lookup_def map_of_eq_None_iff)

subsection \<open>The targets that a merge into the defaults meets\<close>

lemma pristine_member: "pristine_props kvs \<Longrightarrow> map_of kvs k = Some v \<Longrightarrow> pristine v"
  by (induction kvs) (auto split: if_splits)

lemma pristine_no_proto: "pristine_props kvs \<Longrightarrow> map_of kvs ''__proto__'' = None"
  by (induction kvs) auto

lemma pristine_target:
  assumes "pristine t" "plain_object t \<or> isArray t"
  shows "target t"
  using assms by (cases t) (simp_all add: target_def pristine_no_proto)

lemma pristine_array_flat:
  assumes "pristine (JArr xs ps)"
  shows "sub_target (own_prop (JArr xs ps) k) = JObj []"
proof -
  from assms have len: "length xs \<le> 4294967295" and ps: "ps = []"
    and flat: "list_all (\<lambda>x. \<not> object_like x) xs"
    by simp_all
  have "\<not> object_like (own_prop (JArr xs ps) k)"
    using flat ps
    by (auto simp: own_prop_lookup lookup_array [OF len] object_like_def list_all_length
        split: option.splits)
  then show ?thesis
    by (auto simp: sub_target_def object_like_def)
qed

lemma pristine_sub:
  assumes "pristine t" "plain_object t \<or> isArray t"
  shows "pristine (sub_target (own_prop t k))"
    and "plain_object (sub_target (own_prop t k)) \<or> isArray (sub_target (own_prop t k))"
proof -
  have "pristine (sub_target (own_prop t k))
      \<and> (plain_object (sub_target (own_prop t k)) \<or> isArray (sub_target (own_prop t k)))"
  proof (cases t)
    case (JObj kvs)
    show ?thesis
    proof (cases "map_of kvs k")
      case None
      with JObj show ?thesis by (simp add: own_prop_def sub_target_def)
    next
      case (Some v)
      with JObj assms(1) have "pristine v"
        using pristine_member [of kvs k v] by simp
      with JObj Some show ?thesis
        by (cases v) (simp_all add: own_prop_def sub_target_def)
    qed
  next
    case (JArr xs ps)
    with assms(1) have "sub_target (own_prop t k) = JObj []"
      by (simp add: pristine_array_flat del: pristine.simps)
    then show ?thesis by simp
  qed (use assms(2) in simp_all)
  then show "pristine (sub_target (own_prop t k))"
    and "plain_object (sub_target (own_prop t k)) \<or> isArray (sub_target (own_prop t k))"
    by blast+
qed

lemma lists_fit_member:
  "lists_fit_props kvs s \<Longrightarrow> map_of kvs k = Some d \<Longrightarrow> lists_fit d (own_prop s k)"
  by (induction kvs) (auto split: if_splits)

lemma fits_sub:
  assumes "pristine t" "plain_object t \<or> isArray t" "fits t s" "plain_object (own_prop s k)"
  shows "fits (sub_target (own_prop t k)) (own_prop s k)"
proof (cases t)
  case (JObj kvs)
  show ?thesis
  proof (cases "map_of kvs k")
    case None
    with JObj show ?thesis by (simp add: own_prop_def sub_target_def fits_def)
  next
    case (Some d)
    with JObj assms(3) have "lists_fit d (own_prop s k)"
      using lists_fit_member [of kvs s k d] by (simp add: fits_def)
    with JObj Some assms(4) show ?thesis
      by (cases d) (simp_all add: own_prop_def [of "JObj kvs"] sub_target_def fits_def)
  qed
next
  case (JArr xs ps)
  with assms(1) have "sub_target (own_prop t k) = JObj []"
    by (simp add: pristine_array_flat del: pristine.simps)
  then show ?thesis by (simp add: fits_def)
qed (use assms(2) in simp_all)

lemma fits_no_length:
  assumes "fits t s" "isArray t" "own_props s = Some skvs"
  shows "''length'' \<notin> set (remdups (map fst skvs))"
proof -
  from assms have "map_of skvs ''length'' = None"
    by (cases t) (simp_all add: fits_def has_own_def)
  then show ?thesis
    by (simp add: map_of_eq_None_iff)
qed

lemma proto_safe_member:
  "proto_safe_props kvs \<Longrightarrow> map_of kvs k = Some v
   \<Longrightarrow> (if k = ''__proto__'' then harmless v else proto_safe v)"
  by (induction kvs) (auto split: if_splits)

text \<open>
  Within the model a merge into such a target returns, for every source that changes no
  prototype and writes no \<open>length\<close>.
\<close>

lemma merge_returns:
  assumes "pristine t" "plain_object t \<or> isArray t" "fits t s"
    "own_props s = Some skvs" "proto_safe_props skvs"
  shows "\<exists>m. mergeDeep rt t s = Returns m"
  using assms
proof (induction "size s" arbitrary: s t skvs rule: less_induct)
  case less
  note outer = less.hyps
  have tgt: "target t"
    using pristine_target [OF less.prems(1,2)] .
  have inner: "\<exists>m. mergeKeys rt t' s ks = Returns m"
    if "distinct ks" "set ks \<subseteq> set (remdups (map fst skvs))" "target t'"
      "isArray t' = isArray t" "\<forall>k \<in> set ks. own_prop t' k = own_prop t k"
    for t' ks
    using that
  proof (induction ks arbitrary: t')
    case Nil
    then show ?case by simp
  next
    case (Cons key ks)
    then have fresh: "key \<notin> set ks" and dist: "distinct ks"
      and sub: "set ks \<subseteq> set (remdups (map fst skvs))"
      and listed: "key \<in> set (remdups (map fst skvs))"
      and same: "own_prop t' key = own_prop t key"
      by auto
    from listed obtain sv where sv: "map_of skvs key = Some sv"
      by (cases "map_of skvs key") (auto simp: map_of_eq_None_iff)
    with less.prems(4) have own: "own_prop s key = sv"
      by (simp add: own_prop_def)
    note safe = proto_safe_member [OF less.prems(5) sv]
    show ?case
    proof (cases "key = ''__proto__''")
      case True
      with safe own have "harmless (own_prop s ''__proto__'')" by simp
      with Cons.IH [OF dist sub Cons.prems(3,4)] Cons.prems(5) True show ?thesis
        by (simp add: mergeKeys_proto [OF Cons.prems(3)] del: mergeKeys.simps)
    next
      case False
      have nolen: "\<not> (isArray t' \<and> key = ''length'')"
        using fits_no_length [OF less.prems(3) _ less.prems(4)] listed Cons.prems(4)
        by blast
      have continue: "\<exists>m. mergeKeys rt (store t' key y) s ks = Returns m" for y
      proof (rule Cons.IH [OF dist sub])
        show "target (store t' key y)"
          using target_store [OF Cons.prems(3) False] .
        show "isArray (store t' key y) = isArray t"
          using Cons.prems(4) by simp
        show "\<forall>k \<in> set ks. own_prop (store t' key y) k = own_prop t k"
        proof
          fix k assume k: "k \<in> set ks"
          with fresh have "k \<noteq> key" by blast
          then have "own_prop (store t' key y) k = own_prop t' k"
            by (rule lookup_store_other(2) [OF Cons.prems(3)])
          with k Cons.prems(5) show "own_prop (store t' key y) k = own_prop t k" by simp
        qed
      qed
      show ?thesis
      proof (cases "plain_object sv")
        case True
        then obtain kvs' where kvs': "sv = JObj kvs'"
          by (cases sv) simp_all
        from True own have "size sv < size s"
          using own_prop_size [of s key] by (cases sv) simp_all
        moreover from safe False kvs' have "proto_safe_props kvs'" by simp
        moreover have "fits (sub_target (own_prop t key)) sv"
          using fits_sub [OF less.prems(1,2,3), of key] True own by simp
        ultimately obtain m1 where
          "mergeDeep rt (sub_target (own_prop t key)) sv = Returns m1"
          using outer [of sv "sub_target (own_prop t key)" kvs']
            pristine_sub [OF less.prems(1,2), of key] kvs'
          by auto
        with continue [of m1] True own same show ?thesis
          by (simp add: mergeKeys_object [OF Cons.prems(3) False _ nolen]
              del: mergeKeys.simps)
      next
        case leaf: False
        with continue [of sv] own show ?thesis
          by (simp add: mergeKeys_leaf [OF Cons.prems(3) False _ nolen] del: mergeKeys.simps)
      qed
    qed
  qed
  have "\<exists>m. mergeKeys rt t s (remdups (map fst skvs)) = Returns m"
    by (rule inner) (simp_all add: tgt)
  with less.prems(4) show ?case
    by (simp add: mergeDeep.simps Object_keys_def)
qed

text \<open>What one run of \<open>mergeDeep\<close> that returns has done to its target, key by key.\<close>

lemma merge_run:
  assumes run: "mergeDeep rt t s = Returns m"
    and t: "pristine t" "plain_object t \<or> isArray t" "isArray t \<longrightarrow> fits t s"
  shows "plain_object m = plain_object t"
    and "isArray m = isArray t"
    and "lookup m ''__proto__'' = None"
    and "\<And>k. lookup s k = None \<Longrightarrow> own_prop m k = own_prop t k"
    and "\<And>k. lookup s k = None \<Longrightarrow> plain_object t \<Longrightarrow> lookup m k = lookup t k"
    and "\<And>k x. lookup s k = Some x \<Longrightarrow> k \<noteq> ''__proto__'' \<Longrightarrow> plain_object x
          \<Longrightarrow> \<exists>m'. mergeDeep rt (sub_target (own_prop t k)) x = Returns m' \<and> lookup m k = Some m'"
    and "\<And>k x. lookup s k = Some x \<Longrightarrow> k \<noteq> ''__proto__'' \<Longrightarrow> \<not> plain_object x
          \<Longrightarrow> lookup m k = Some x"
proof -
  from run obtain skvs where skvs: "own_props s = Some skvs"
    and loop: "mergeKeys rt t s (remdups (map fst skvs)) = Returns m"
    by (rule mergeDeep_Returns)
  have tgt: "target t"
    using pristine_target [OF t(1,2)] .
  have nolen: "isArray t \<longrightarrow> ''length'' \<notin> set (remdups (map fst skvs))"
    using fits_no_length [of t s skvs] t(3) skvs by blast
  note K = mergeKeys_result [OF loop distinct_remdups tgt nolen]
  from K have shape: "target m" "plain_object m = plain_object t" "isArray m = isArray t"
    by blast+
  from K have keep: "\<And>k. k \<notin> set (remdups (map fst skvs)) \<Longrightarrow>
      own_prop m k = own_prop t k \<and> (plain_object t \<longrightarrow> lookup m k = lookup t k)"
    by blast
  from K have made: "\<And>k. k \<in> set (remdups (map fst skvs)) \<Longrightarrow> k \<noteq> ''__proto__'' \<Longrightarrow>
      (plain_object (own_prop s k) \<longrightarrow>
         (\<exists>m'. mergeDeep rt (sub_target (own_prop t k)) (own_prop s k) = Returns m'
             \<and> lookup m k = Some m'))
      \<and> (\<not> plain_object (own_prop s k) \<longrightarrow> lookup m k = Some (own_prop s k))"
    by blast
  show "plain_object m = plain_object t" "isArray m = isArray t"
    using shape by simp_all
  show "lookup m ''__proto__'' = None"
    using target_no_proto [OF shape(1)] .
  show "own_prop m k = own_prop t k" if "lookup s k = None" for k
    using keep [of k] that key_listed [OF skvs, of k] by auto
  show "lookup m k = lookup t k" if "lookup s k = None" "plain_object t" for k
    using keep [of k] that key_listed [OF skvs, of k] by auto
  show "\<exists>m'. mergeDeep rt (sub_target (own_prop t k)) x = Returns m' \<and> lookup m k = Some m'"
    if "lookup s k = Some x" "k \<noteq> ''__proto__''" "plain_object x" for k x
    using made [of k] that key_listed [OF skvs, of k] by (auto simp: own_prop_lookup [of s])
  show "lookup m k = Some x"
    if "lookup s k = Some x" "k \<noteq> ''__proto__''" "\<not> plain_object x" for k x
    using made [of k] that key_listed [OF skvs, of k] by (auto simp: own_prop_lookup [of s])
qed

lemma section_get_path: "section_path v p = Some d \<Longrightarrow> get_path v p = Some d"
proof (induction p arbitrary: v)
  case Nil
  then show ?case by simp
next
  case (Cons k ks)
  then show ?case
    by (cases v) (auto split: option.splits)
qed

lemma section_step:
  assumes "section_path v (k # ks) = Some d"
  obtains kvs x where "v = JObj kvs" "map_of kvs k = Some x" "section_path x ks = Some d"
  using assms by (cases v) (auto split: option.splits)

lemma untouched_lookup:
  "untouched s (k # ks) =
     (own_props s \<noteq> None
      \<and> (case lookup s k of None \<Rightarrow> True
         | Some x \<Rightarrow> plain_object x \<and> ks \<noteq> [] \<and> untouched x ks))"
  by (simp add: lookup_def split: option.splits)

text \<open>A value of the source that is not a plain object is the value of the result.\<close>

lemma merged_leaf:
  assumes "mergeDeep rt t s = Returns m" "pristine t" "plain_object t \<or> isArray t" "fits t s"
    "section_path s p = Some v" "p \<noteq> []" "\<not> plain_object v" "''__proto__'' \<notin> set p"
  shows "get_path m p = Some v"
  using assms
proof (induction p arbitrary: t s m)
  case Nil
  then show ?case by simp
next
  case (Cons k ks)
  note IH = Cons.IH and prems = Cons.prems
  from prems(5) obtain skvs x where s: "s = JObj skvs" and x: "map_of skvs k = Some x"
    and rest: "section_path x ks = Some v"
    by (rule section_step)
  then have look: "lookup s k = Some x" by simp
  from prems(8) have k: "k \<noteq> ''__proto__''" and ks: "''__proto__'' \<notin> set ks"
    by auto
  from prems(4) have fit: "isArray t \<longrightarrow> fits t s" by simp
  note run = merge_run [OF prems(1,2,3) fit]
  show ?case
  proof (cases "ks = []")
    case True
    with rest have "x = v" by simp
    with run(7) [OF look k] prems(7) have "lookup m k = Some v" by simp
    with True show ?thesis
      by (subst get_path_lookup) simp
  next
    case False
    with rest have px: "plain_object x"
      by (cases x; cases ks) simp_all
    from run(6) [OF look k px] obtain m' where
      m': "mergeDeep rt (sub_target (own_prop t k)) x = Returns m'" "lookup m k = Some m'"
      by blast
    have "fits (sub_target (own_prop t k)) x"
      using fits_sub [OF prems(2,3,4), of k] px look by (simp add: own_prop_lookup [of s])
    then have "get_path m' ks = Some v"
      using IH [OF m'(1) pristine_sub [OF prems(2,3)] _ rest False prems(7) ks] by blast
    with m'(2) show ?thesis
      by (subst get_path_lookup) simp
  qed
qed

text \<open>A default that the source leaves untouched is the value of the result.\<close>

lemma merged_default:
  assumes "mergeDeep rt t s = Returns m" "pristine t" "plain_object t"
    "section_path t p = Some d" "untouched s p"
  shows "get_path m p = Some d"
  using assms
proof (induction p arbitrary: t s m)
  case Nil
  then show ?case by simp
next
  case (Cons k ks)
  note IH = Cons.IH and prems = Cons.prems
  from prems(4) obtain tkvs tv where t: "t = JObj tkvs" and tv: "map_of tkvs k = Some tv"
    and rest: "section_path tv ks = Some d"
    by (rule section_step)
  from prems(3) have kind: "plain_object t \<or> isArray t" and fit: "isArray t \<longrightarrow> fits t s"
    by (cases t; simp)+
  note run = merge_run [OF prems(1,2) kind fit]
  show ?case
  proof (cases "lookup s k")
    case None
    with run(5) [OF None prems(3)] t tv have "lookup m k = Some tv" by simp
    with section_get_path [OF rest] show ?thesis
      by (subst get_path_lookup) simp
  next
    case (Some x)
    with prems(5) have px: "plain_object x" and ks: "ks \<noteq> []" and un: "untouched x ks"
      unfolding untouched_lookup by simp_all
    from rest ks have ptv: "plain_object tv"
      by (cases tv; cases ks) simp_all
    with t tv have sub: "sub_target (own_prop t k) = tv"
      by (cases tv) (simp_all add: own_prop_def sub_target_def)
    from prems(2) t tv have k: "k \<noteq> ''__proto__''" and pr: "pristine tv"
      using pristine_no_proto [of tkvs] pristine_member [of tkvs k tv] by auto
    from run(6) [OF Some k px] sub obtain m' where
      m': "mergeDeep rt tv x = Returns m'" "lookup m k = Some m'"
      by auto
    have "get_path m' ks = Some d"
      using IH [OF m'(1) pr ptv rest un] .
    with m'(2) show ?thesis
      by (subst get_path_lookup) simp
  qed
qed

subsection \<open>The shape of the result\<close>

lemma conforms_refl: "distinct_keys d \<Longrightarrow> conforms d d"
proof (induction d)
  case (JObj dkvs)
  then have dist: "distinct (map fst dkvs)" and dk: "distinct_keys_of dkvs" by simp_all
  have "conforms_props rest (JObj dkvs)" if "set rest \<subseteq> set dkvs" for rest
    using that
  proof (induction rest)
    case Nil
    then show ?case by simp
  next
    case (Cons kv rest)
    obtain k v where kv: "kv = (k, v)" by (cases kv)
    with Cons.prems have mem: "(k, v) \<in> set dkvs" by simp
    with dist have "own_prop (JObj dkvs) k = v" by (simp add: own_prop_def)
    moreover have "conforms v v"
      using JObj.IH [of "(k, v)" v] mem distinct_keys_of_member [OF dk mem] by simp
    ultimately show ?case
      using Cons kv by simp
  qed
  then show ?case by simp
qed simp_all

lemma leaf_kinds: "\<not> plain_object sv \<Longrightarrow> conforms dk sv = kinds_agree dk sv"
  by (cases dk; cases sv) simp_all

text \<open>
  The result of merging a source into defaults has the shape of the defaults exactly when
  the source agrees with them in kind, at the keys it has.
\<close>

lemma merged_kinds:
  assumes "mergeDeep rt d s = Returns m" "d = JObj dkvs" "pristine d" "distinct_keys d"
    "fits d s"
  shows "conforms d m = kinds_agree_props dkvs s"
  using assms
proof (induction "size d" arbitrary: d dkvs s m rule: less_induct)
  case less
  note outer = less.hyps and prems = less.prems
  from prems(2) have kind: "plain_object d \<or> isArray d" and fit: "isArray d \<longrightarrow> fits d s"
    by simp_all
  note run = merge_run [OF prems(1,3) kind fit]
  from prems(2,4) have dist: "distinct (map fst dkvs)" and dk: "distinct_keys_of dkvs"
    by simp_all
  have entry: "conforms e (own_prop m k) = (\<not> has_own s k \<or> kinds_agree e (own_prop s k))"
    if mem: "(k, e) \<in> set dkvs" for k e
  proof -
    from mem dist have look: "map_of dkvs k = Some e" by simp
    with prems(2) have own: "own_prop d k = e" by (simp add: own_prop_def)
    from look prems(2,3) have k: "k \<noteq> ''__proto__''" and pr: "pristine e"
      using pristine_no_proto [of dkvs] pristine_member [of dkvs k e] by auto
    have de: "distinct_keys e"
      using distinct_keys_of_member [OF dk mem] .
    from look prems(2) have small: "size e < size d"
      using size_map_of [of dkvs k e] by simp
    show ?thesis
    proof (cases "lookup s k")
      case None
      with run(4) [OF None] own conforms_refl [OF de] show ?thesis
        by (simp add: has_own_lookup)
    next
      case (Some sv)
      then have sv: "own_prop s k = sv" "has_own s k"
        by (simp_all add: own_prop_lookup has_own_lookup)
      show ?thesis
      proof (cases "plain_object sv")
        case True
        from run(6) [OF Some k True] own obtain m' where
          m': "mergeDeep rt (sub_target e) sv = Returns m'" "lookup m k = Some m'"
          by auto
        then have om: "own_prop m k = m'"
          by (simp add: own_prop_lookup)
        have fs: "fits (sub_target e) sv"
          using fits_sub [OF prems(3) kind prems(5), of k] True sv(1) own by simp
        have ps: "pristine (sub_target e)"
          and ks: "plain_object (sub_target e) \<or> isArray (sub_target e)"
          using pristine_sub [OF prems(3) kind, of k] own by simp_all
        from fs have fs': "isArray (sub_target e) \<longrightarrow> fits (sub_target e) sv" by simp
        note run' = merge_run [OF m'(1) ps ks fs']
        show ?thesis
        proof (cases e)
          case (JObj ekvs)
          then have sub: "sub_target e = e" by (simp add: sub_target_def)
          have "conforms e m' = kinds_agree_props ekvs sv"
            using outer [OF small _ JObj pr de] m'(1) fs sub by simp
          with JObj True om sv show ?thesis by simp
        next
          case (JArr xs ps)
          then have "sub_target e = e" by (simp add: sub_target_def)
          with run'(2) JArr have "isArray m'" by simp
          with JArr True om sv show ?thesis
            by (cases m') simp_all
        next
          case JUndefined
          then have "sub_target e = JObj []" by (simp add: sub_target_def)
          with run'(1) have "plain_object m'" by simp
          with JUndefined True om sv show ?thesis
            by (cases m'; cases sv) simp_all
        next
          case JNull
          then have "sub_target e = JObj []" by (simp add: sub_target_def)
          with run'(1) have "plain_object m'" by simp
          with JNull True om sv show ?thesis
            by (cases m'; cases sv) simp_all
        next
          case (JBool b)
          then have "sub_target e = JObj []" by (simp add: sub_target_def)
          with run'(1) have "plain_object m'" by simp
          with JBool True om sv show ?thesis
            by (cases m'; cases sv) simp_all
        next
          case (JNum n)
          then have "sub_target e = JObj []" by (simp add: sub_target_def)
          with run'(1) have "plain_object m'" by simp
          with JNum True om sv show ?thesis
            by (cases m'; cases sv) simp_all
        next
          case (JStr c)
          then have "sub_target e = JObj []" by (simp add: sub_target_def)
          with run'(1) have "plain_object m'" by simp
          with JStr True om sv show ?thesis
            by (cases m'; cases sv) simp_all
        qed
      next
        case False
        with run(7) [OF Some k False] sv show ?thesis
          by (simp add: own_prop_lookup [of m] leaf_kinds)
      qed
    qed
  qed
  have "conforms_props rest m = kinds_agree_props rest s" if "set rest \<subseteq> set dkvs" for rest
    using that
  proof (induction rest)
    case Nil
    then show ?case by simp
  next
    case (Cons kv rest)
    obtain k e where kv: "kv = (k, e)" by (cases kv)
    with Cons.prems have "(k, e) \<in> set dkvs" by simp
    from entry [OF this] Cons kv show ?case by simp
  qed
  from this [of dkvs] run(1) prems(2) show ?case
    by simp
qed

subsection \<open>Merging the raw settings into the defaults\<close>

lemma defaults_pristine:
  "pristine fallbackConfig" "plain_object fallbackConfig" "distinct_keys fallbackConfig"
  by (simp_all add: fallbackConfig_def object_like_def)

lemma defaults_object: "\<exists>dkvs. fallbackConfig = JObj dkvs"
  by (simp add: fallbackConfig_def)

lemma mergeable_fits:
  assumes "mergeable raw"
  shows "fits fallbackConfig raw"
proof -
  from defaults_object obtain dkvs where d: "fallbackConfig = JObj dkvs" by blast
  from assms have "lists_fit_props dkvs raw"
    unfolding mergeable_def lists_fit_root_def d by simp
  then show ?thesis
    unfolding fits_def d by simp
qed

lemma mergeable_returns:
  assumes "mergeable raw"
  shows "\<exists>m. mergeDeep rt fallbackConfig raw = Returns m"
proof -
  from assms obtain skvs where "own_props raw = Some skvs" "proto_safe_props skvs"
    by (auto simp: mergeable_def proto_safe_root_def split: option.splits)
  with merge_returns [OF defaults_pristine(1) _ mergeable_fits [OF assms]] defaults_pristine(2)
  show ?thesis by blast
qed

lemma defaults_conform: "conforms fallbackConfig fallbackConfig"
  using conforms_refl [OF defaults_pristine(3)] .

lemma merged_defaults_kinds:
  assumes "mergeDeep rt fallbackConfig raw = Returns m" "mergeable raw"
  shows "conforms fallbackConfig m = settings_agree raw"
proof -
  from defaults_object obtain dkvs where d: "fallbackConfig = JObj dkvs" by blast
  have "settings_agree raw = kinds_agree_props dkvs raw"
    unfolding settings_agree_def d by simp
  with merged_kinds [OF assms(1) d defaults_pristine(1,3) mergeable_fits [OF assms(2)]]
  show ?thesis
    by simp
qed

lemma sample_mergeable: "mergeable sample_settings" "settings_agree sample_settings"
  by (simp_all add: mergeable_def proto_safe_root_def lists_fit_root_def settings_agree_def
      fallbackConfig_def sample_settings_def own_prop_def has_own_def)

lemma number_mergeable: "mergeable (JNum 7)" "settings_agree (JNum 7)"
  by (simp_all add: mergeable_def proto_safe_root_def lists_fit_root_def settings_agree_def
      fallbackConfig_def own_prop_def has_own_def)

subsection \<open>Precedence of the raw settings\<close>

text \<open>
  Claim C6, as stated, says that every leaf path that only the defaults have keeps its
  default.  It does not when the raw data replaces the enclosing section by a primitive:
  with \<open>{"bot": 5}\<close> on disk, the path \<open>bot.prefix\<close> is a leaf of the defaults and absent
  from the raw data, and the merged configuration has no value there, \<open>bot\<close> being
  \<open>5\<close>.
\<close>

theorem merge_precedence_counterexample:
  "fst (loadConfigRaw (engine [(''A'', JObj [(''bot'', JNum 5)])]) (plain_disk [(configPath, ''A'')]))
     = JObj [(''bot'', JNum 5)]
   \<and> get_path fallbackConfig [''bot'', ''prefix''] = Some (JStr ''/'')
   \<and> get_path (JObj [(''bot'', JNum 5)]) [''bot'', ''prefix''] = None
   \<and> (\<exists>merged. fst (getConfig (engine [(''A'', JObj [(''bot'', JNum 5)])])
                      (plain_disk [(configPath, ''A'')])) = Returns merged
         \<and> get_path merged [''bot''] = Some (JNum 5)
         \<and> get_path merged [''bot'', ''prefix''] = None)"
proof -
  have "loadConfigRaw (engine [(''A'', JObj [(''bot'', JNum 5)])]) (plain_disk [(configPath, ''A'')])
      = (JObj [(''bot'', JNum 5)], plain_disk [(configPath, ''A'')])"
    by (rule loadConfigRaw_parsed [of _ "''A''"]) (simp_all add: disk_simps engine_reads)
  then show ?thesis
    by (simp add: getConfig_eq mergeDeep.simps Object_keys_def own_prop_def has_own_def
        store_def fallbackConfig_def)
qed

text \<open>
  Claim C6, amended.  Let the raw settings be neither \<open>null\<close> nor \<open>undefined\<close>, with
  a key \<open>__proto__\<close> (at the root or in a nested plain object) holding at most a
  primitive or an object without keys, and with no key \<open>length\<close> in a plain object
  that stands where the defaults have a list (\<open>mergeable\<close>).  Then \<open>getConfig\<close> returns
  a merged configuration in which (a) at every key path, free of \<open>__proto__\<close>, where the
  raw data holds, below nested plain objects, a value that is not a plain object (a
  primitive, \<open>null\<close> or an array), that raw value stands, arrays being replaced
  wholesale; (b) at every key path of the defaults that the raw data leaves untouched
  (the raw data reaches, through nested plain objects, an object that lacks the next key
  of the path) the default stands; and (c) there is no key \<open>__proto__\<close>, whatever the
  raw data holds under that key.  A default below a section that the raw data replaces
  by a primitive, \<open>null\<close> or an array is not kept.
\<close>

theorem merge_precedence:
  assumes "fst (loadConfigRaw rt w) = raw" and "mergeable raw"
  shows "\<exists>merged. fst (getConfig rt w) = Returns merged
       \<and> (\<forall>p v. section_path raw p = Some v \<and> p \<noteq> [] \<and> \<not> plain_object v
                 \<and> ''__proto__'' \<notin> set p \<longrightarrow> get_path merged p = Some v)
       \<and> (\<forall>p d. section_path fallbackConfig p = Some d \<and> untouched raw p
                 \<longrightarrow> get_path merged p = Some d)
       \<and> get_path merged [''__proto__''] = None"
proof -
  from mergeable_returns [OF assms(2)] obtain m where
    run: "mergeDeep rt fallbackConfig raw = Returns m"
    by blast
  note fit = mergeable_fits [OF assms(2)]
  have kind: "plain_object fallbackConfig \<or> isArray fallbackConfig"
    using defaults_pristine(2) by simp
  have "lookup m ''__proto__'' = None"
    using merge_run(3) [OF run defaults_pristine(1) kind] fit by simp
  then have "get_path m [''__proto__''] = None"
    by (subst get_path_lookup) simp
  moreover have "get_path m p = Some v"
    if "section_path raw p = Some v" "p \<noteq> []" "\<not> plain_object v" "''__proto__'' \<notin> set p"
    for p v
    using merged_leaf [OF run defaults_pristine(1) kind fit that] .
  moreover have "get_path m p = Some d"
    if "section_path fallbackConfig p = Some d" "untouched raw p" for p d
    using merged_default [OF run defaults_pristine(1,2) that] .
  ultimately show ?thesis
    using run assms(1) by (auto simp: getConfig_eq)
qed

text \<open>
  The sample settings: \<open>bot.prefix\<close> and the list \<open>security.allowedDomains\<close> come from
  the file, \<open>bot.name\<close> and \<open>logging.level\<close> from the defaults.
\<close>

theorem merge_precedence_witness:
  "fst (loadConfigRaw (engine [(''S'', sample_settings)]) (plain_disk [(configPath, ''S'')]))
     = sample_settings
   \<and> mergeable sample_settings
   \<and> (\<exists>merged. fst (getConfig (engine [(''S'', sample_settings)])
                      (plain_disk [(configPath, ''S'')])) = Returns merged
        \<and> get_path merged [''bot'', ''prefix''] = Some (JStr ''!'')
        \<and> get_path merged [''security'', ''allowedDomains''] = Some (JArr [JStr ''a.example''] [])
        \<and> get_path merged [''bot'', ''name''] = Some (JStr ''Page Bot'')
        \<and> get_path merged [''logging'', ''level''] = Some (JStr ''info'')
        \<and> get_path merged [''__proto__''] = None)"
proof -
  have raw: "fst (loadConfigRaw (engine [(''S'', sample_settings)])
                   (plain_disk [(configPath, ''S'')])) = sample_settings"
    by (simp add: sample_loaded)
  from merge_precedence [OF raw sample_mergeable(1)] obtain merged where
    m: "fst (getConfig (engine [(''S'', sample_settings)]) (plain_disk [(configPath, ''S'')]))
          = Returns merged"
    and a: "\<And>p v. section_path sample_settings p = Some v \<Longrightarrow> p \<noteq> [] \<Longrightarrow> \<not> plain_object v
              \<Longrightarrow> ''__proto__'' \<notin> set p \<Longrightarrow> get_path merged p = Some v"
    and b: "\<And>p d. section_path fallbackConfig p = Some d \<Longrightarrow> untouched sample_settings p
              \<Longrightarrow> get_path merged p = Some d"
    and c: "get_path merged [''__proto__''] = None"
    by blast
  have 1: "get_path merged [''bot'', ''prefix''] = Some (JStr ''!'')"
    by (rule a) (simp_all add: sample_settings_def)
  have 2: "get_path merged [''security'', ''allowedDomains''] = Some (JArr [JStr ''a.example''] [])"
    by (rule a) (simp_all add: sample_settings_def)
  have 3: "get_path merged [''bot'', ''name''] = Some (JStr ''Page Bot'')"
    by (rule b) (simp_all add: sample_settings_def fallbackConfig_def)
  have 4: "get_path merged [''logging'', ''level''] = Some (JStr ''info'')"
    by (rule b) (simp_all add: sample_settings_def fallbackConfig_def)
  from raw sample_mergeable(1) m 1 2 3 4 c show ?thesis
    by blast
qed

subsection \<open>The shape of the merged configuration\<close>

text \<open>
  Claim C1, as stated, says that \<open>getConfig\<close> returns a configuration with every
  section and leaf of the defaults, of the expected kind, whatever valid JSON the
  settings file holds.  It does not: with \<open>{"facebook": null}\<close> on disk the merged
  configuration has \<open>null\<close> where the defaults have the section \<open>facebook\<close>.
\<close>

theorem getConfig_complete_counterexample:
  "fst (loadConfigRaw (engine [(''N'', JObj [(''facebook'', JNull)])])
          (plain_disk [(configPath, ''N'')])) = JObj [(''facebook'', JNull)]
   \<and> (\<exists>merged. fst (getConfig (engine [(''N'', JObj [(''facebook'', JNull)])])
                      (plain_disk [(configPath, ''N'')])) = Returns merged
         \<and> get_path merged [''facebook''] = Some JNull
         \<and> get_path merged [''facebook'', ''verifyToken''] = None
         \<and> \<not> conforms fallbackConfig merged)"
proof -
  have "loadConfigRaw (engine [(''N'', JObj [(''facebook'', JNull)])])
          (plain_disk [(configPath, ''N'')])
      = (JObj [(''facebook'', JNull)], plain_disk [(configPath, ''N'')])"
    by (rule loadConfigRaw_parsed [of _ "''N''"]) (simp_all add: disk_simps engine_reads)
  then show ?thesis
    by (simp add: getConfig_eq mergeDeep.simps Object_keys_def own_prop_def has_own_def
        store_def fallbackConfig_def)
qed

text \<open>
  Claim C1, amended.  When the settings file is absent (and the engine reads back the
  template it writes), cannot be read, or holds text that is not valid JSON,
  \<open>getConfig\<close> returns the defaults, which have their own shape.  When the file holds
  valid JSON that is neither \<open>null\<close> nor \<open>undefined\<close>, with a key \<open>__proto__\<close>
  holding at most a primitive or an object without keys and with no key \<open>length\<close> in
  a plain object that stands where the defaults have a list (\<open>mergeable\<close>), \<open>getConfig\<close>
  returns a merged configuration, and this has every section and leaf of the defaults
  with a value of the expected kind exactly when the raw data agrees with the defaults
  in kind wherever it has one of their keys (\<open>settings_agree\<close>): a section where they
  have a section, an array or a plain object where they have a list, and a value of the
  same kind where they have any other leaf.  A root without any key of the defaults (a
  number, a string, a boolean, an array) agrees with them.
\<close>

theorem getConfig_complete:
  "conforms fallbackConfig fallbackConfig
   \<and> (files w configPath = None
        \<and> JSON_parse rt (utf8_decode rt (utf8_encode rt (JSON_stringify rt minimalTemplate)))
            = Some minimalTemplate
      \<longrightarrow> fst (getConfig rt w) = Returns fallbackConfig)
   \<and> (read_fails w configPath \<longrightarrow> fst (getConfig rt w) = Returns fallbackConfig)
   \<and> (\<forall>b. files w configPath = Some b \<and> \<not> read_fails w configPath
            \<and> JSON_parse rt (utf8_decode rt b) = None
         \<longrightarrow> fst (getConfig rt w) = Returns fallbackConfig)
   \<and> (\<forall>b raw. files w configPath = Some b \<and> \<not> read_fails w configPath
            \<and> JSON_parse rt (utf8_decode rt b) = Some raw \<and> mergeable raw
         \<longrightarrow> (\<exists>merged. fst (getConfig rt w) = Returns merged
                \<and> conforms fallbackConfig merged = settings_agree raw))"
proof -
  have absent: "fst (getConfig rt w) = Returns fallbackConfig"
    if "files w configPath = None"
      "JSON_parse rt (utf8_decode rt (utf8_encode rt (JSON_stringify rt minimalTemplate)))
         = Some minimalTemplate"
    using loadConfigRaw_absent [OF that] by (simp add: getConfig_eq merge_template_defaults)
  have unreadable: "fst (getConfig rt w) = Returns fallbackConfig" if "read_fails w configPath"
    using loadConfigRaw_unreadable [OF that] by (simp add: getConfig_eq merge_template_defaults)
  have invalid: "fst (getConfig rt w) = Returns fallbackConfig"
    if "files w configPath = Some b" "\<not> read_fails w configPath"
      "JSON_parse rt (utf8_decode rt b) = None" for b
    using loadConfigRaw_invalid [OF that] by (simp add: getConfig_eq merge_template_defaults)
  have parsed: "\<exists>merged. fst (getConfig rt w) = Returns merged
                  \<and> conforms fallbackConfig merged = settings_agree raw"
    if "files w configPath = Some b" "\<not> read_fails w configPath"
      "JSON_parse rt (utf8_decode rt b) = Some raw" "mergeable raw" for b raw
  proof -
    from mergeable_returns [OF that(4)] obtain m where
      run: "mergeDeep rt fallbackConfig raw = Returns m"
      by blast
    with merged_defaults_kinds [OF run that(4)] loadConfigRaw_parsed [OF that(1,2,3)]
    show ?thesis
      by (simp add: getConfig_eq)
  qed
  from defaults_conform absent unreadable invalid parsed show ?thesis
    by blast
qed

text \<open>
  A disk without the settings file, a settings file that is not JSON, the sample
  settings, which agree with the defaults, and a settings file with the number \<open>7\<close>.
\<close>

theorem getConfig_complete_witness:
  "files (plain_disk []) configPath = None
   \<and> JSON_parse (engine [])
        (utf8_decode (engine []) (utf8_encode (engine []) (JSON_stringify (engine []) minimalTemplate)))
       = Some minimalTemplate
   \<and> fst (getConfig (engine []) (plain_disk [])) = Returns fallbackConfig
   \<and> files (plain_disk [(configPath, ''{oops'')]) configPath = Some ''{oops''
   \<and> \<not> read_fails (plain_disk [(configPath, ''{oops'')]) configPath
   \<and> JSON_parse (engine []) (utf8_decode (engine []) ''{oops'') = None
   \<and> fst (getConfig (engine []) (plain_disk [(configPath, ''{oops'')])) = Returns fallbackConfig
   \<and> files (plain_disk [(configPath, ''S'')]) configPath = Some ''S''
   \<and> \<not> read_fails (plain_disk [(configPath, ''S'')]) configPath
   \<and> JSON_parse (engine [(''S'', sample_settings)])
        (utf8_decode (engine [(''S'', sample_settings)]) ''S'') = Some sample_settings
   \<and> mergeable sample_settings \<and> settings_agree sample_settings
   \<and> (\<exists>merged. fst (getConfig (engine [(''S'', sample_settings)])
                      (plain_disk [(configPath, ''S'')])) = Returns merged
        \<and> conforms fallbackConfig merged)
   \<and> files (plain_disk [(configPath, ''7'')]) configPath = Some ''7''
   \<and> \<not> read_fails (plain_disk [(configPath, ''7'')]) configPath
   \<and> JSON_parse (engine [(''7'', JNum 7)]) (utf8_decode (engine [(''7'', JNum 7)]) ''7'')
       = Some (JNum 7)
   \<and> mergeable (JNum 7) \<and> settings_agree (JNum 7)
   \<and> (\<exists>merged. fst (getConfig (engine [(''7'', JNum 7)]) (plain_disk [(configPath, ''7'')]))
                  = Returns merged
        \<and> conforms fallbackConfig merged)"
proof -
  have a1: "files (plain_disk []) configPath = None"
    by (simp add: disk_simps)
  have a2: "JSON_parse (engine [])
        (utf8_decode (engine []) (utf8_encode (engine []) (JSON_stringify (engine []) minimalTemplate)))
       = Some minimalTemplate"
    by (simp add: engine_def)
  from getConfig_complete [of "plain_disk []" "engine []"] a1 a2
  have a3: "fst (getConfig (engine []) (plain_disk [])) = Returns fallbackConfig"
    by blast
  have b1: "files (plain_disk [(configPath, ''{oops'')]) configPath = Some ''{oops''"
    and b2: "\<not> read_fails (plain_disk [(configPath, ''{oops'')]) configPath"
    by (simp_all add: disk_simps)
  have b3: "JSON_parse (engine []) (utf8_decode (engine []) ''{oops'') = None"
    by (simp add: engine_reads)
  from getConfig_complete [of "plain_disk [(configPath, ''{oops'')]" "engine []"] b1 b2 b3
  have b4: "fst (getConfig (engine []) (plain_disk [(configPath, ''{oops'')]))
              = Returns fallbackConfig"
    by blast
  have c1: "files (plain_disk [(configPath, ''S'')]) configPath = Some ''S''"
    and c2: "\<not> read_fails (plain_disk [(configPath, ''S'')]) configPath"
    by (simp_all add: disk_simps)
  have c3: "JSON_parse (engine [(''S'', sample_settings)])
        (utf8_decode (engine [(''S'', sample_settings)]) ''S'') = Some sample_settings"
    by (simp add: engine_reads)
  from getConfig_complete [of "plain_disk [(configPath, ''S'')]" "engine [(''S'', sample_settings)]"]
    c1 c2 c3 sample_mergeable
  have c4: "\<exists>merged. fst (getConfig (engine [(''S'', sample_settings)])
                      (plain_disk [(configPath, ''S'')])) = Returns merged
        \<and> conforms fallbackConfig merged"
    by blast
  have d1: "files (plain_disk [(configPath, ''7'')]) configPath = Some ''7''"
    and d2: "\<not> read_fails (plain_disk [(configPath, ''7'')]) configPath"
    by (simp_all add: disk_simps)
  have d3: "JSON_parse (engine [(''7'', JNum 7)]) (utf8_decode (engine [(''7'', JNum 7)]) ''7'')
       = Some (JNum 7)"
    by (simp add: engine_reads)
  from getConfig_complete [of "plain_disk [(configPath, ''7'')]" "engine [(''7'', JNum 7)]"]
    d1 d2 d3 number_mergeable
  have d4: "\<exists>merged. fst (getConfig (engine [(''7'', JNum 7)]) (plain_disk [(configPath, ''7'')]))
                  = Returns merged
        \<and> conforms fallbackConfig merged"
    by blast
  from a1 a2 a3 b1 b2 b3 b4 c1 c2 c3 sample_mergeable c4 d1 d2 d3 number_mergeable d4
  show ?thesis
    by blast
qed

section \<open>Facts about the webhook gateway\<close>

lemma and_then_simps:
  "and_then (returning x) f = f x"
  "and_then (throwing e) f = throwing e"
  by (simp_all add: and_then_def returning_def throwing_def fun_eq_iff)

lemma reading_ok:
  "v \<noteq> JNull \<Longrightarrow> v \<noteq> JUndefined \<Longrightarrow> reading v k = returning (own_prop v k)"
  by (simp add: reading_def returning_def get_prop_def fun_eq_iff)

lemma own_prop_nullish: "v = JNull \<or> v = JUndefined \<Longrightarrow> own_prop v k = JUndefined"
  by (auto simp: own_prop_def)

lemma own_prop_present: "own_prop v k \<noteq> JUndefined \<Longrightarrow> truthy v"
  by (cases v) (auto simp: own_prop_def)

lemma sample_config:
  "\<exists>cfg. getConfig (engine ((''S'', sample_settings) # rest)) (plain_disk [(configPath, ''S'')])
           = (Returns cfg, plain_disk [(configPath, ''S'')])
       \<and> token_configured cfg"
proof -
  have "getConfig (engine ((''S'', sample_settings) # rest)) (plain_disk [(configPath, ''S'')])
      = (mergeDeep (engine ((''S'', sample_settings) # rest)) fallbackConfig sample_settings,
         plain_disk [(configPath, ''S'')])"
    by (simp add: getConfig_eq sample_loaded)
  then show ?thesis
    by (simp add: mergeDeep.simps Object_keys_def own_prop_def has_own_def store_def
        fallbackConfig_def sample_settings_def token_configured_def)
qed

lemma log_failure_state:
  "invocations (snd (log_failure co label err s)) = invocations s"
  "lastRuntimeError (snd (log_failure co label err s)) = lastRuntimeError s"
  by (simp_all add: log_failure_def and_then_def message_read_def logger_def
      split: outcome.splits)

lemma log_failure_result:
  assumes "logger_throws co LogError = None"
  shows "fst (log_failure co label err s) =
           (case err of
              Thrown v \<Rightarrow> if v = JNull \<or> v = JUndefined
                          then Throws (unreadable v ''message'') else Returns ()
            | _ \<Rightarrow> Returns ())"
  using assms
  by (cases err)
     (simp_all add: log_failure_def and_then_def message_read_def logger_def get_prop_def)

subsection \<open>The verification handshake\<close>

lemma verify_eq:
  assumes "config s \<noteq> JNull" "config s \<noteq> JUndefined"
  shows "verify co query s =
           (if handshake_succeeds (config s) query
            then and_then (logger co LogInfo [JStr ''Webhook verified successfully'']) (\<lambda>_.
                   returning (challenge_response query)) s
            else and_then (logger co LogWarn [JStr ''Webhook verification failed'']) (\<lambda>_.
                   returning forbidden) s)"
  using assms
  by (simp add: verify_def Let_def and_then_def current_config_def reading_def get_prop_def
      handshake_succeeds_def configured_verify_token_def forbidden_def challenge_response_def)

lemma verify_unset:
  assumes "config s = JNull \<or> config s = JUndefined"
  shows "verify co query s = (Throws (unreadable (config s) ''facebook''), s)"
  using assms
  by (auto simp: verify_def Let_def and_then_def current_config_def reading_def get_prop_def)

lemma verify_result:
  "lastRuntimeError (snd (verify co query s)) = lastRuntimeError s
   \<and> fst (verify co query s) =
       (case verification_error co (config s) query of
          Some e \<Rightarrow> Throws e
        | None \<Rightarrow> Returns (if handshake_succeeds (config s) query
                            then challenge_response query else forbidden))"
proof (cases "config s = JNull \<or> config s = JUndefined")
  case True
  then show ?thesis
    by (auto simp: verify_unset verification_error_def)
next
  case False
  then show ?thesis
    by (auto simp: verify_eq verification_error_def and_then_def logger_def returning_def
        split: option.splits)
qed

text \<open>
  Claim C5, as stated, says that every request but a matching one, exceptions included,
  gets the forbidden response.  The \<open>catch\<close> of the handler answers an exception with
  status 200 and an empty body instead: here the token is wrong and \<open>logger.warn\<close>
  throws.
\<close>

theorem verification_exception_counterexample:
  "\<not> handshake_succeeds fallbackConfig
        (JObj [(''hub.mode'', JStr ''subscribe''), (''hub.verify_token'', JStr ''wrong''),
               (''hub.challenge'', JStr ''1234'')])
   \<and> fst (get_webhook (quiet\<lparr>logger_throws := (\<lambda>lvl. if lvl = LogWarn then Some ''transport closed''
                                                   else None)\<rparr>)
           (JObj [(''hub.mode'', JStr ''subscribe''), (''hub.verify_token'', JStr ''wrong''),
                  (''hub.challenge'', JStr ''1234'')])
           (fresh_server (plain_disk [])))
       = Returns \<lparr>statusCode = 200, sent = JStr []\<rparr>
   \<and> \<lparr>statusCode = 200, sent = JStr []\<rparr> \<noteq> forbidden"
  by (simp add: get_webhook_def verify_def handshake_succeeds_def configured_verify_token_def
      quiet_def fresh_server_def fallbackConfig_def forbidden_def Let_def
      or_else_def and_prop_def logger_def current_config_def set_lastRuntimeError_def
      log_failure_def message_read_def
      and_then_def try_catch_def reading_def get_prop_def own_prop_def returning_def)

text \<open>
  Claim C5, amended.  For every verification request during which the \<open>try\<close> block of
  the handler raises no exception, the response is the supplied challenge (the empty
  string when there is none) with status 200 if the mode is \<open>subscribe\<close> and the
  supplied token is strictly equal to the configured verify token (the empty string when
  none is configured), and the fixed forbidden response in every other case; and
  \<open>lastRuntimeError\<close> is unchanged.  When the \<open>try\<close> block raises an exception (the
  logger throws, or \<open>config\<close> is unset), the \<open>catch\<close> first calls \<open>logger.error\<close>:
  if that call returns, the message of the exception is recorded in \<open>lastRuntimeError\<close>
  and the response is status 200 with an empty body, which is not the forbidden
  response; if that call throws as well, its exception leaves the handler, which has
  then sent no response and recorded nothing.
\<close>

theorem verification_response:
  "(verification_error co (config s) query = None \<longrightarrow>
      fst (get_webhook co query s) =
        Returns (if handshake_succeeds (config s) query then challenge_response query
                 else forbidden)
    \<and> lastRuntimeError (snd (get_webhook co query s)) = lastRuntimeError s)
   \<and> (verification_error co (config s) query = Some e \<and> logger_throws co LogError = None \<longrightarrow>
      fst (get_webhook co query s) = Returns empty_success
    \<and> message_of e = Returns (lastRuntimeError (snd (get_webhook co query s))))
   \<and> (verification_error co (config s) query = Some e \<and> logger_throws co LogError = Some m \<longrightarrow>
      fst (get_webhook co query s) = Throws (Error m)
    \<and> lastRuntimeError (snd (get_webhook co query s)) = lastRuntimeError s)
   \<and> challenge_response query \<noteq> forbidden \<and> empty_success \<noteq> forbidden"
proof -
  have msg: "\<exists>t. message_of e = Returns (JStr t)"
    if "verification_error co (config s) query = Some e"
    using that
    by (auto simp: verification_error_def unreadable_def split: if_splits)
  show ?thesis
    using verify_result [of co query s] msg
    by (cases "verify co query s")
       (auto simp: get_webhook_def try_catch_def and_then_def log_failure_def message_read_def
          logger_def returning_def set_lastRuntimeError_def challenge_response_def
          forbidden_def empty_success_def split: option.splits)
qed

text \<open>
  A matching request; a request with a wrong token; the latter with a logger that
  throws on warnings; and with a logger that throws at every level.
\<close>

theorem verification_response_witness:
  "verification_error quiet (config (fresh_server (plain_disk [])))
        (JObj [(''hub.mode'', JStr ''subscribe''), (''hub.verify_token'', JStr ''xx''),
               (''hub.challenge'', JStr ''1234'')]) = None
   \<and> fst (get_webhook quiet
           (JObj [(''hub.mode'', JStr ''subscribe''), (''hub.verify_token'', JStr ''xx''),
                  (''hub.challenge'', JStr ''1234'')])
           (fresh_server (plain_disk [])))
       = Returns \<lparr>statusCode = 200, sent = JStr ''1234''\<rparr>
   \<and> verification_error quiet (config (fresh_server (plain_disk [])))
        (JObj [(''hub.mode'', JStr ''subscribe''), (''hub.verify_token'', JStr ''wrong''),
               (''hub.challenge'', JStr ''1234'')]) = None
   \<and> fst (get_webhook quiet
           (JObj [(''hub.mode'', JStr ''subscribe''), (''hub.verify_token'', JStr ''wrong''),
                  (''hub.challenge'', JStr ''1234'')])
           (fresh_server (plain_disk [])))
       = Returns forbidden
   \<and> verification_error
        (quiet\<lparr>logger_throws := (\<lambda>lvl. if lvl = LogWarn then Some ''transport closed'' else None)\<rparr>)
        (config (fresh_server (plain_disk [])))
        (JObj [(''hub.mode'', JStr ''subscribe''), (''hub.verify_token'', JStr ''wrong''),
               (''hub.challenge'', JStr ''1234'')]) = Some (Error ''transport closed'')
   \<and> lastRuntimeError (snd (get_webhook
           (quiet\<lparr>logger_throws := (\<lambda>lvl. if lvl = LogWarn then Some ''transport closed''
                                         else None)\<rparr>)
           (JObj [(''hub.mode'', JStr ''subscribe''), (''hub.verify_token'', JStr ''wrong''),
                  (''hub.challenge'', JStr ''1234'')])
           (fresh_server (plain_disk []))))
       = JStr ''transport closed''
   \<and> verification_error (quiet\<lparr>logger_throws := (\<lambda>lvl. Some ''transport closed'')\<rparr>)
        (config (fresh_server (plain_disk [])))
        (JObj [(''hub.mode'', JStr ''subscribe''), (''hub.verify_token'', JStr ''wrong''),
               (''hub.challenge'', JStr ''1234'')]) = Some (Error ''transport closed'')
   \<and> fst (get_webhook (quiet\<lparr>logger_throws := (\<lambda>lvl. Some ''transport closed'')\<rparr>)
           (JObj [(''hub.mode'', JStr ''subscribe''), (''hub.verify_token'', JStr ''wrong''),
                  (''hub.challenge'', JStr ''1234'')])
           (fresh_server (plain_disk [])))
       = Throws (Error ''transport closed'')
   \<and> lastRuntimeError (snd (get_webhook (quiet\<lparr>logger_throws := (\<lambda>lvl. Some ''transport closed'')\<rparr>)
           (JObj [(''hub.mode'', JStr ''subscribe''), (''hub.verify_token'', JStr ''wrong''),
                  (''hub.challenge'', JStr ''1234'')])
           (fresh_server (plain_disk []))))
       = JNull"
proof -
  let ?s = "fresh_server (plain_disk [])"
  let ?good = "JObj [(''hub.mode'', JStr ''subscribe''), (''hub.verify_token'', JStr ''xx''),
                     (''hub.challenge'', JStr ''1234'')]"
  let ?bad = "JObj [(''hub.mode'', JStr ''subscribe''), (''hub.verify_token'', JStr ''wrong''),
                    (''hub.challenge'', JStr ''1234'')]"
  let ?broken = "quiet\<lparr>logger_throws := (\<lambda>lvl. if lvl = LogWarn then Some ''transport closed''
                                              else None)\<rparr>"
  let ?dead = "quiet\<lparr>logger_throws := (\<lambda>lvl. Some ''transport closed'')\<rparr>"
  have yes: "handshake_succeeds (config ?s) ?good" and no: "\<not> handshake_succeeds (config ?s) ?bad"
    by (simp_all add: handshake_succeeds_def configured_verify_token_def fresh_server_def
        fallbackConfig_def own_prop_def or_else_def and_prop_def)
  have cfg: "config ?s \<noteq> JNull" "config ?s \<noteq> JUndefined" and old: "lastRuntimeError ?s = JNull"
    by (simp_all add: fresh_server_def fallbackConfig_def)
  have e1: "verification_error quiet (config ?s) ?good = None"
    and e2: "verification_error quiet (config ?s) ?bad = None"
    and e3: "verification_error ?broken (config ?s) ?bad = Some (Error ''transport closed'')"
    and e4: "verification_error ?dead (config ?s) ?bad = Some (Error ''transport closed'')"
    using yes no cfg by (simp_all add: verification_error_def quiet_def)
  have l3: "logger_throws ?broken LogError = None"
    and l4: "logger_throws ?dead LogError = Some ''transport closed''"
    by (simp_all add: quiet_def)
  from verification_response [of quiet ?s ?good] e1 yes
  have 1: "fst (get_webhook quiet ?good ?s) = Returns \<lparr>statusCode = 200, sent = JStr ''1234''\<rparr>"
    by (simp add: challenge_response_def or_else_def own_prop_def)
  from verification_response [of quiet ?s ?bad] e2 no
  have 2: "fst (get_webhook quiet ?bad ?s) = Returns forbidden"
    by simp
  from verification_response [of ?broken ?s ?bad "Error ''transport closed''"] e3 l3
  have 3: "lastRuntimeError (snd (get_webhook ?broken ?bad ?s)) = JStr ''transport closed''"
    by simp
  from verification_response [of ?dead ?s ?bad "Error ''transport closed''" "''transport closed''"]
    e4 l4 old
  have 4: "fst (get_webhook ?dead ?bad ?s) = Throws (Error ''transport closed'')"
    and 5: "lastRuntimeError (snd (get_webhook ?dead ?bad ?s)) = JNull"
    by simp_all
  from e1 e2 e3 e4 1 2 3 4 5 show ?thesis
    by blast
qed

subsection \<open>One messaging event\<close>

lemma invoke_invocations:
  "invocations (snd (invoke co call label s)) = invocations s @ [call]"
  "lastRuntimeError (snd (invoke co call label s)) = lastRuntimeError s"
  by (simp_all add: invoke_def Let_def split: handler_result.splits)

text \<open>The \<open>try\<close> around one handler invocation, with the \<open>catch\<close> that logs.\<close>

lemma guarded_invoke:
  "invocations (snd (try_catch (invoke co call label) (log_failure co label') s))
     = invocations s @ [call]"
  "lastRuntimeError (snd (try_catch (invoke co call label) (log_failure co label') s))
     = lastRuntimeError s"
  using invoke_invocations [of co call label s] log_failure_state [of co label']
  by (auto simp: try_catch_def split: prod.splits outcome.splits)

lemma guarded_invoke_result:
  assumes "logger_throws co LogError = None"
  shows "fst (try_catch (invoke co call label) (log_failure co label') s) = Returns ()
       \<or> ended_by_nothing co (fst (try_catch (invoke co call label) (log_failure co label') s))"
proof (cases "handler_result_of co (length (invocations s))")
  case (ThrowsSync e)
  then show ?thesis
    using log_failure_result [OF assms, of label' e]
    by (cases e) (auto simp: try_catch_def invoke_def Let_def ended_by_nothing_def)
qed (simp_all add: try_catch_def invoke_def Let_def)

lemma dispatch_messaging_eq:
  assumes "event \<noteq> JNull" "event \<noteq> JUndefined"
  shows "dispatch_messaging co event =
           (case messaging_call co event of
              [] \<Rightarrow> returning ()
            | call # _ \<Rightarrow>
                try_catch
                  (invoke co call
                     (if truthy (own_prop event ''message'') then ''Error handling message:''
                      else ''Error handling postback:''))
                  (log_failure co ''Error dispatching messaging event:''))"
  using assms
  by (auto simp: dispatch_messaging_def messaging_call_def reading_ok and_then_simps Let_def
      try_catch_def returning_def fun_eq_iff)

text \<open>
  Claim C10: for every messaging event that carries both a message and a postback (a
  truthy \<open>message\<close>, whatever \<open>postback\<close> is), the only handler invoked for the event is
  the message handler, once, with the message, the ids of sender and recipient and the
  timestamp; for a messaging event that carries neither, no handler is invoked.
\<close>

theorem message_before_postback:
  "(truthy (own_prop event ''message'') \<longrightarrow>
      invocations (snd (dispatch_messaging co event s)) =
        invocations s @
          [HandleMessage (own_prop event ''message'')
             (and_prop (own_prop event ''sender'') ''id'')
             (and_prop (own_prop event ''recipient'') ''id'')
             (or_else (own_prop event ''timestamp'') (JNum (Date_now co)))])
   \<and> (\<not> truthy (own_prop event ''message'') \<and> \<not> truthy (own_prop event ''postback'') \<longrightarrow>
      invocations (snd (dispatch_messaging co event s)) = invocations s)"
proof (cases "event = JNull \<or> event = JUndefined")
  case True
  then have "own_prop event ''message'' = JUndefined"
    by (rule own_prop_nullish)
  moreover from True have "dispatch_messaging co event s
        = (Throws (unreadable event ''sender''), s)"
    by (auto simp: dispatch_messaging_def and_then_def reading_def get_prop_def)
  ultimately show ?thesis
    by simp
next
  case False
  then show ?thesis
    using guarded_invoke(1)
    by (auto simp: dispatch_messaging_eq messaging_call_def Let_def returning_def)
qed

text \<open>An event with a message and a postback, and an event with neither.\<close>

theorem message_before_postback_witness:
  "truthy (own_prop (JObj [(''message'', JObj [(''text'', JStr ''hi'')]),
                          (''postback'', JObj [(''payload'', JStr ''START'')]),
                          (''sender'', JObj [(''id'', JStr ''u1'')])]) ''message'')
   \<and> invocations (snd (dispatch_messaging quiet
          (JObj [(''message'', JObj [(''text'', JStr ''hi'')]),
                 (''postback'', JObj [(''payload'', JStr ''START'')]),
                 (''sender'', JObj [(''id'', JStr ''u1'')])])
          (fresh_server (plain_disk []))))
       = [HandleMessage (JObj [(''text'', JStr ''hi'')]) (JStr ''u1'') JUndefined
            (JNum 1700000000000)]
   \<and> \<not> truthy (own_prop (JObj [(''sender'', JObj [(''id'', JStr ''u1'')])]) ''message'')
   \<and> \<not> truthy (own_prop (JObj [(''sender'', JObj [(''id'', JStr ''u1'')])]) ''postback'')
   \<and> invocations (snd (dispatch_messaging quiet (JObj [(''sender'', JObj [(''id'', JStr ''u1'')])])
          (fresh_server (plain_disk [])))) = []"
  using message_before_postback [of "JObj [(''message'', JObj [(''text'', JStr ''hi'')]),
                 (''postback'', JObj [(''payload'', JStr ''START'')]),
                 (''sender'', JObj [(''id'', JStr ''u1'')])]" quiet "fresh_server (plain_disk [])"]
    message_before_postback [of "JObj [(''sender'', JObj [(''id'', JStr ''u1'')])]" quiet
      "fresh_server (plain_disk [])"]
  by (simp add: own_prop_def and_prop_def or_else_def quiet_def fresh_server_def)

subsection \<open>A whole payload\<close>

lemma dispatches_returning: "dispatches co (returning ()) [] s"
  by (simp add: dispatches_def returning_def)

lemma dispatches_and_then:
  assumes "dispatches co a xs s" "dispatches co (f ()) ys (snd (a s))"
  shows "dispatches co (and_then a f) (xs @ ys) s"
  using assms
  by (cases "a s"; cases "fst (a s)")
     (auto simp: dispatches_def and_then_def ended_by_nothing_def)

lemma dispatches_forEach_all:
  "(\<forall>x \<in> set xs. \<forall>s. dispatches co (f x) (g x) s)
   \<Longrightarrow> dispatches co (forEach f xs) (concat (map g xs)) s"
proof (induction xs arbitrary: s)
  case Nil
  then show ?case by (simp add: dispatches_returning)
next
  case (Cons y ys)
  then show ?case
    by (simp, intro dispatches_and_then) simp_all
qed

lemma dispatches_forEach:
  assumes "\<And>x s. x \<in> set xs \<Longrightarrow> dispatches co (f x) (g x) s"
  shows "dispatches co (forEach f xs) (concat (map g xs)) s"
  using assms by (intro dispatches_forEach_all) simp

lemma dispatches_optional_forEach:
  assumes "list_or_absent ok coll" "\<And>x s. ok x \<Longrightarrow> dispatches co (f x) (g x) s"
  shows "dispatches co (optional_forEach coll what f) (concat (map g (elements coll))) s"
proof (cases coll)
  case (JArr xs ps)
  with assms(1) have "\<And>x. x \<in> set xs \<Longrightarrow> ok x"
    by (simp add: list_or_absent_def list_all_iff)
  then have "dispatches co (forEach f xs) (concat (map g xs)) s"
    by (intro dispatches_forEach assms(2))
  with JArr show ?thesis
    by (simp add: optional_forEach_def elements_def)
qed (use assms(1) in \<open>simp_all add: optional_forEach_def elements_def list_or_absent_def
       dispatches_returning\<close>)

lemma dispatches_guarded:
  assumes "logger_throws co LogError = None"
  shows "dispatches co (try_catch (invoke co call label) (log_failure co label')) [call] s"
  using guarded_invoke [of co call label label' s]
    guarded_invoke_result [OF assms, of call label label' s]
  by (auto simp: dispatches_def)

lemma dispatches_messaging:
  assumes "logger_throws co LogError = None" "present event"
  shows "dispatches co (dispatch_messaging co event) (messaging_call co event) s"
proof -
  from assms(2) have ev: "event \<noteq> JNull" "event \<noteq> JUndefined"
    by (simp_all add: present_def)
  show ?thesis
  proof (cases "messaging_call co event")
    case Nil
    then show ?thesis
      by (simp add: dispatch_messaging_eq [OF ev] dispatches_returning)
  next
    case (Cons call rest)
    then have "rest = []"
      by (auto simp: messaging_call_def Let_def split: if_splits)
    with Cons show ?thesis
      using dispatches_guarded [OF assms(1)]
      by (simp add: dispatch_messaging_eq [OF ev])
  qed
qed

lemma dispatch_change_eq:
  assumes "present change" "present entry"
  shows "dispatch_change co entry change =
           (case comment_call co entry change of
              [] \<Rightarrow> returning ()
            | call # _ \<Rightarrow>
                try_catch (invoke co call ''Error handling comment:'')
                  (log_failure co ''Error dispatching comment event:''))"
  using assms
  by (auto simp: dispatch_change_def comment_call_def reading_ok and_then_simps Let_def
      present_def)

lemma dispatches_change:
  assumes "logger_throws co LogError = None" "present entry" "present change"
  shows "dispatches co (dispatch_change co entry change) (comment_call co entry change) s"
proof (cases "comment_call co entry change")
  case Nil
  then show ?thesis
    by (simp add: dispatch_change_eq [OF assms(3,2)] dispatches_returning)
next
  case (Cons call rest)
  then have "rest = []"
    by (auto simp: comment_call_def Let_def split: if_splits)
  with Cons show ?thesis
    using dispatches_guarded [OF assms(1)]
    by (simp add: dispatch_change_eq [OF assms(3,2)])
qed

lemma dispatches_entry:
  assumes "logger_throws co LogError = None" "well_formed_entry entry"
  shows "dispatches co (dispatch_entry co entry) (entry_calls co entry) s"
proof -
  from assms(2) have ok: "present entry"
    and ms: "list_or_absent present (own_prop entry ''messaging'')"
    and cs: "list_or_absent present (own_prop entry ''changes'')"
    by (simp_all add: well_formed_entry_def)
  from ok have rd: "\<And>k. reading entry k = returning (own_prop entry k)"
    by (simp add: reading_ok present_def)
  have "dispatches co
          (and_then (optional_forEach (own_prop entry ''messaging'') ''entry.messaging''
                       (dispatch_messaging co))
             (\<lambda>_. optional_forEach (own_prop entry ''changes'') ''entry.changes''
                       (dispatch_change co entry)))
          (concat (map (messaging_call co) (elements (own_prop entry ''messaging'')))
           @ concat (map (comment_call co entry) (elements (own_prop entry ''changes'')))) s"
    by (intro dispatches_and_then dispatches_optional_forEach [OF ms]
        dispatches_optional_forEach [OF cs] dispatches_messaging dispatches_change assms(1) ok)
  then show ?thesis
    by (simp add: dispatch_entry_def rd and_then_simps entry_calls_def)
qed

lemma dispatches_process_events:
  assumes "logger_throws co LogError = None" "handlers_missing co = None"
    "well_formed_payload body"
  shows "dispatches co (process_events co body) (expected_calls co body) s"
proof -
  from assms(3) have page: "own_prop body ''object'' = JStr ''page''"
    and es: "list_or_absent well_formed_entry (own_prop body ''entry'')"
    by (simp_all add: well_formed_payload_def)
  from page have "truthy body"
    by (intro own_prop_present [of body "''object''"]) simp
  then have rd: "\<And>k. reading body k = returning (own_prop body k)"
    by (intro reading_ok) auto
  have "dispatches co
          (optional_forEach (own_prop body ''entry'') ''body.entry'' (dispatch_entry co))
          (concat (map (entry_calls co) (elements (own_prop body ''entry'')))) s"
    by (intro dispatches_optional_forEach [OF es] dispatches_entry assms(1))
  then show ?thesis
    using assms(2) page
    by (simp add: process_events_def rd and_then_simps expected_calls_def)
qed

text \<open>The \<open>catch\<close> of the POST handler, after a statement that \<open>dispatches\<close>.\<close>

lemma recorded_after_dispatch:
  assumes "dispatches co a calls s" "logger_throws co LogError = None"
  shows "(fst (a s) = Returns () \<longrightarrow>
            try_catch a (\<lambda>err. and_then (log_failure co label err) (\<lambda>_.
                           and_then (message_read err) set_lastRuntimeError)) s = a s)
       \<and> (fst (a s) \<noteq> Returns () \<longrightarrow>
            (\<exists>v. (v = JNull \<or> v = JUndefined)
               \<and> lastRuntimeError (snd (try_catch a (\<lambda>err. and_then (log_failure co label err) (\<lambda>_.
                           and_then (message_read err) set_lastRuntimeError)) s))
                   = JStr (unreadable_text v ''message'')))"
  using assms
  by (cases "a s")
     (auto simp: dispatches_def ended_by_nothing_def try_catch_def and_then_def
        log_failure_def message_read_def logger_def set_lastRuntimeError_def unreadable_def)

lemma no_end_by_nothing:
  assumes "\<forall>n. \<not> throws_nothing (handler_result_of co n)"
  shows "\<not> ended_by_nothing co out"
proof
  assume "ended_by_nothing co out"
  then obtain n v where "handler_result_of co n = ThrowsSync (Thrown v)"
    "v = JNull \<or> v = JUndefined"
    by (auto simp: ended_by_nothing_def)
  then have "throws_nothing (handler_result_of co n)" by auto
  with assms show False by blast
qed

lemma post_webhook_run:
  assumes "getConfig rt (disk s) = (Returns cfg, w)" "token_configured cfg" "truthy body"
  shows "post_webhook rt co body s =
           (acknowledgment,
            try_catch (process_events co body)
              (\<lambda>err. and_then (log_failure co ''Error processing webhook event:'' err) (\<lambda>_.
                     and_then (message_read err) set_lastRuntimeError))
              (s\<lparr>config := cfg, disk := w\<rparr>))"
  using assms
  by (simp add: post_webhook_def Let_def token_configured_def acknowledgment_def or_else_def)

lemma post_webhook_dispatches:
  assumes "getConfig rt (disk s) = (Returns cfg, w)"
    and "token_configured cfg"
    and "handlers_missing co = None"
    and "logger_throws co LogError = None"
    and "well_formed_payload body"
  shows "fst (post_webhook rt co body s) = acknowledgment"
    and "\<forall>n. \<not> throws_nothing (handler_result_of co n) \<Longrightarrow>
           fst (snd (post_webhook rt co body s)) = Returns ()
         \<and> invocations (snd (snd (post_webhook rt co body s)))
             = invocations s @ expected_calls co body
         \<and> lastRuntimeError (snd (snd (post_webhook rt co body s))) = lastRuntimeError s"
    and "lastRuntimeError (snd (snd (post_webhook rt co body s))) = lastRuntimeError s
       \<or> lastRuntimeError (snd (snd (post_webhook rt co body s)))
           = JStr (unreadable_text JNull ''message'')
       \<or> lastRuntimeError (snd (snd (post_webhook rt co body s)))
           = JStr (unreadable_text JUndefined ''message'')"
proof -
  from assms(5) have "truthy body"
    by (intro own_prop_present [of body "''object''"]) (simp add: well_formed_payload_def)
  note run = post_webhook_run [OF assms(1,2) this, of co]
  let ?s1 = "s\<lparr>config := cfg, disk := w\<rparr>"
  have d: "dispatches co (process_events co body) (expected_calls co body) ?s1"
    by (rule dispatches_process_events [OF assms(4,3,5)])
  note rec = recorded_after_dispatch [OF d assms(4), of "''Error processing webhook event:''"]
  show "fst (post_webhook rt co body s) = acknowledgment"
    by (simp add: run)
  show "fst (snd (post_webhook rt co body s)) = Returns ()
         \<and> invocations (snd (snd (post_webhook rt co body s)))
             = invocations s @ expected_calls co body
         \<and> lastRuntimeError (snd (snd (post_webhook rt co body s))) = lastRuntimeError s"
    if "\<forall>n. \<not> throws_nothing (handler_result_of co n)"
    using d rec no_end_by_nothing [OF that]
    by (auto simp: run dispatches_def)
  show "lastRuntimeError (snd (snd (post_webhook rt co body s))) = lastRuntimeError s
       \<or> lastRuntimeError (snd (snd (post_webhook rt co body s)))
           = JStr (unreadable_text JNull ''message'')
       \<or> lastRuntimeError (snd (snd (post_webhook rt co body s)))
           = JStr (unreadable_text JUndefined ''message'')"
  proof (cases "fst (process_events co body ?s1) = Returns ()")
    case True
    with rec d show ?thesis
      by (simp add: run dispatches_def)
  next
    case False
    with rec show ?thesis
      by (auto simp: run)
  qed
qed

text \<open>
  Claim C3, as stated, says that every entry, messaging event and qualifying change of a
  page payload is dispatched exactly once, and that a handler that throws keeps no other
  invocation from being made.  Neither holds for every payload and every handler.  The
  reads \<open>event.sender\<close>, \<open>entry.messaging\<close> and \<open>change.value\<close> are outside the \<open>try\<close>
  around the invocation, so an element of the payload that is \<open>null\<close> ends both loops:
  the message that follows a \<open>null\<close> in the list of messaging events is never
  dispatched.  And when a handler throws \<open>null\<close>, the \<open>catch\<close> around the invocation
  throws on \<open>err.message\<close>: of the three events of the sample payload only the first is
  dispatched.
\<close>

theorem sibling_events_lost_counterexample:
  "expected_calls quiet
     (JObj [(''object'', JStr ''page''),
            (''entry'', JArr [JObj [(''id'', JStr ''page-1''),
               (''messaging'', JArr [JNull,
                   JObj [(''sender'', JObj [(''id'', JStr ''u1'')]),
                         (''message'', JObj [(''text'', JStr ''hi'')])]] [])]] [])])
     = [HandleMessage (JObj [(''text'', JStr ''hi'')]) (JStr ''u1'') JUndefined
          (JNum 1700000000000)]
   \<and> invocations (snd (snd (post_webhook (engine [(''S'', sample_settings)]) quiet
       (JObj [(''object'', JStr ''page''),
              (''entry'', JArr [JObj [(''id'', JStr ''page-1''),
                 (''messaging'', JArr [JNull,
                     JObj [(''sender'', JObj [(''id'', JStr ''u1'')]),
                           (''message'', JObj [(''text'', JStr ''hi'')])]] [])]] [])])
       (fresh_server (plain_disk [(configPath, ''S'')]))))) = []
   \<and> length (expected_calls
        (quiet\<lparr>handler_result_of := (\<lambda>n. if n = 0 then ThrowsSync (Thrown JNull) else Fulfils)\<rparr>)
        sample_payload) = 3
   \<and> invocations (snd (snd (post_webhook (engine [(''S'', sample_settings)])
        (quiet\<lparr>handler_result_of := (\<lambda>n. if n = 0 then ThrowsSync (Thrown JNull) else Fulfils)\<rparr>)
        sample_payload (fresh_server (plain_disk [(configPath, ''S'')])))))
       = [HandleMessage (JObj [(''text'', JStr ''hi'')]) (JStr ''u1'') (JStr ''page-1'')
            (JNum 11)]"
proof -
  obtain cfg where cfg:
    "getConfig (engine [(''S'', sample_settings)]) (plain_disk [(configPath, ''S'')])
       = (Returns cfg, plain_disk [(configPath, ''S'')])"
    "token_configured cfg"
    using sample_config by blast
  have 1: "expected_calls quiet
     (JObj [(''object'', JStr ''page''),
            (''entry'', JArr [JObj [(''id'', JStr ''page-1''),
               (''messaging'', JArr [JNull,
                   JObj [(''sender'', JObj [(''id'', JStr ''u1'')]),
                         (''message'', JObj [(''text'', JStr ''hi'')])]] [])]] [])])
     = [HandleMessage (JObj [(''text'', JStr ''hi'')]) (JStr ''u1'') JUndefined
          (JNum 1700000000000)]"
    by (simp add: expected_calls_def entry_calls_def messaging_call_def comment_call_def
        elements_def own_prop_def and_prop_def or_else_def Let_def quiet_def)
  have 3: "length (expected_calls
        (quiet\<lparr>handler_result_of := (\<lambda>n. if n = 0 then ThrowsSync (Thrown JNull) else Fulfils)\<rparr>)
        sample_payload) = 3"
    by (simp add: expected_calls_def entry_calls_def messaging_call_def comment_call_def
        elements_def sample_payload_def own_prop_def and_prop_def or_else_def Let_def)
  from cfg have 2: "invocations (snd (snd (post_webhook (engine [(''S'', sample_settings)]) quiet
       (JObj [(''object'', JStr ''page''),
              (''entry'', JArr [JObj [(''id'', JStr ''page-1''),
                 (''messaging'', JArr [JNull,
                     JObj [(''sender'', JObj [(''id'', JStr ''u1'')]),
                           (''message'', JObj [(''text'', JStr ''hi'')])]] [])]] [])])
       (fresh_server (plain_disk [(configPath, ''S'')]))))) = []"
    by (simp add: post_webhook_def fresh_server_def Let_def token_configured_def quiet_def
        or_else_def and_prop_def process_events_def dispatch_entry_def
        dispatch_messaging_def dispatch_change_def optional_forEach_def invoke_def logger_def
        log_failure_def message_read_def set_lastRuntimeError_def
        and_then_def try_catch_def reading_def get_prop_def own_prop_def returning_def
        unreadable_def)
  from cfg have 4: "invocations (snd (snd (post_webhook (engine [(''S'', sample_settings)])
        (quiet\<lparr>handler_result_of := (\<lambda>n. if n = 0 then ThrowsSync (Thrown JNull) else Fulfils)\<rparr>)
        sample_payload (fresh_server (plain_disk [(configPath, ''S'')])))))
       = [HandleMessage (JObj [(''text'', JStr ''hi'')]) (JStr ''u1'') (JStr ''page-1'')
            (JNum 11)]"
    by (simp add: post_webhook_def fresh_server_def Let_def token_configured_def quiet_def
        or_else_def and_prop_def sample_payload_def process_events_def dispatch_entry_def
        dispatch_messaging_def dispatch_change_def optional_forEach_def invoke_def logger_def
        log_failure_def message_read_def set_lastRuntimeError_def
        and_then_def try_catch_def reading_def get_prop_def own_prop_def returning_def
        unreadable_def)
  from 1 2 3 4 show ?thesis
    by blast
qed

text \<open>
  Claim C3, amended: for a POST whose payload has the discriminator \<open>page\<close> and is well
  formed (its entry list, and the messaging and changes lists of every entry, are lists
  or absent, and no entry, event or change is \<open>null\<close>), with the access token
  configured, the handler module loaded, a \<open>logger.error\<close> that does not itself throw,
  and handlers that never throw \<open>null\<close> or \<open>undefined\<close>, the handler returns after
  the acknowledgment having made exactly the invocations the payload calls for: one for
  every messaging event that carries a message or a postback and one for every change
  that is a new comment on the feed and none else, entry by entry in the order of the
  payload, the messaging events of an entry before its changes.  This holds whatever
  else each invocation does, so an invocation that throws an error or rejects keeps no
  other from being made; two messaging events and one such change give three
  invocations.
\<close>

theorem every_event_dispatched_once:
  assumes "getConfig rt (disk s) = (Returns cfg, w)"
    and "token_configured cfg"
    and "handlers_missing co = None"
    and "logger_throws co LogError = None"
    and "well_formed_payload body"
    and "\<forall>n. \<not> throws_nothing (handler_result_of co n)"
  shows "fst (post_webhook rt co body s) = acknowledgment
       \<and> fst (snd (post_webhook rt co body s)) = Returns ()
       \<and> invocations (snd (snd (post_webhook rt co body s)))
           = invocations s @ expected_calls co body"
  using post_webhook_dispatches(1,2) [OF assms(1-5)] assms(6)
  by simp

text \<open>
  The sample payload, with a message handler that throws and a postback handler and a
  comment handler whose promises reject: the three invocations are made.
\<close>

theorem every_event_dispatched_once_witness:
  "(\<exists>cfg. getConfig (engine [(''S'', sample_settings)])
            (disk (fresh_server (plain_disk [(configPath, ''S'')])))
           = (Returns cfg, plain_disk [(configPath, ''S'')])
       \<and> token_configured cfg)
   \<and> handlers_missing (quiet\<lparr>handler_result_of := (\<lambda>n. if n = 0 then ThrowsSync (Error ''boom'')
                                                      else Rejects (Error ''late''))\<rparr>) = None
   \<and> logger_throws (quiet\<lparr>handler_result_of := (\<lambda>n. if n = 0 then ThrowsSync (Error ''boom'')
                                                   else Rejects (Error ''late''))\<rparr>) LogError = None
   \<and> well_formed_payload sample_payload
   \<and> (\<forall>n. \<not> throws_nothing (handler_result_of
              (quiet\<lparr>handler_result_of := (\<lambda>n. if n = 0 then ThrowsSync (Error ''boom'')
                                                else Rejects (Error ''late''))\<rparr>) n))
   \<and> invocations (snd (snd (post_webhook (engine [(''S'', sample_settings)])
         (quiet\<lparr>handler_result_of := (\<lambda>n. if n = 0 then ThrowsSync (Error ''boom'')
                                           else Rejects (Error ''late''))\<rparr>)
         sample_payload (fresh_server (plain_disk [(configPath, ''S'')])))))
     = [HandleMessage (JObj [(''text'', JStr ''hi'')]) (JStr ''u1'') (JStr ''page-1'') (JNum 11),
        HandlePostback (JObj [(''payload'', JStr ''START'')]) (JStr ''u2'') (JStr ''page-1'')
          (JNum 12),
        HandleComment
          (JObj [(''commentId'', JStr ''c1''), (''postId'', JStr ''p1''),
                 (''senderId'', JStr ''u3''), (''senderName'', JStr ''Ann''),
                 (''message'', JStr ''nice''), (''createdAt'', JNum 13)])
          (JStr ''page-1'')]"
proof -
  let ?co = "quiet\<lparr>handler_result_of := (\<lambda>n. if n = 0 then ThrowsSync (Error ''boom'')
                                           else Rejects (Error ''late''))\<rparr>"
  let ?s = "fresh_server (plain_disk [(configPath, ''S'')])"
  obtain cfg where cfg:
    "getConfig (engine [(''S'', sample_settings)]) (disk ?s)
       = (Returns cfg, plain_disk [(configPath, ''S'')])"
    "token_configured cfg"
    using sample_config [of "[]"] by (auto simp: fresh_server_def)
  have co: "handlers_missing ?co = None" "logger_throws ?co LogError = None"
    by (simp_all add: quiet_def)
  have sound: "\<forall>n. \<not> throws_nothing (handler_result_of ?co n)"
    by simp
  have wf: "well_formed_payload sample_payload"
    by (simp add: well_formed_payload_def well_formed_entry_def list_or_absent_def present_def
        sample_payload_def own_prop_def)
  have calls: "expected_calls ?co sample_payload
     = [HandleMessage (JObj [(''text'', JStr ''hi'')]) (JStr ''u1'') (JStr ''page-1'') (JNum 11),
        HandlePostback (JObj [(''payload'', JStr ''START'')]) (JStr ''u2'') (JStr ''page-1'')
          (JNum 12),
        HandleComment
          (JObj [(''commentId'', JStr ''c1''), (''postId'', JStr ''p1''),
                 (''senderId'', JStr ''u3''), (''senderName'', JStr ''Ann''),
                 (''message'', JStr ''nice''), (''createdAt'', JNum 13)])
          (JStr ''page-1'')]"
    by (simp add: expected_calls_def entry_calls_def messaging_call_def comment_call_def
        elements_def sample_payload_def own_prop_def and_prop_def or_else_def Let_def)
  from every_event_dispatched_once [OF cfg co wf sound] calls
  have "invocations (snd (snd (post_webhook (engine [(''S'', sample_settings)]) ?co
         sample_payload ?s)))
     = [HandleMessage (JObj [(''text'', JStr ''hi'')]) (JStr ''u1'') (JStr ''page-1'') (JNum 11),
        HandlePostback (JObj [(''payload'', JStr ''START'')]) (JStr ''u2'') (JStr ''page-1'')
          (JNum 12),
        HandleComment
          (JObj [(''commentId'', JStr ''c1''), (''postId'', JStr ''p1''),
                 (''senderId'', JStr ''u3''), (''senderName'', JStr ''Ann''),
                 (''message'', JStr ''nice''), (''createdAt'', JNum 13)])
          (JStr ''page-1'')]"
    by (simp add: fresh_server_def)
  with cfg co wf sound show ?thesis
    by blast
qed

text \<open>
  Claim C4 says that the message of every failed handler invocation is recorded in
  \<open>lastRuntimeError\<close>.  The code never does so.  Under the conditions of C3, whatever
  the handler invocations do, \<open>lastRuntimeError\<close> is after the request what it was
  before, with one exception: when a handler throws \<open>null\<close> or \<open>undefined\<close>, it
  holds the message of the \<open>TypeError\<close> that the \<open>catch\<close> around the invocation raised
  on \<open>err.message\<close>, which is not a message of the failure.  The \<open>catch\<close> around an
  invocation and the \<open>.catch\<close> of its promise only call the logger; the latter, run
  when the promise settles, leaves \<open>lastRuntimeError\<close> alone as well.
\<close>

theorem handler_failure_not_recorded:
  assumes "getConfig rt (disk s) = (Returns cfg, w)"
    and "token_configured cfg"
    and "handlers_missing co = None"
    and "logger_throws co LogError = None"
    and "well_formed_payload body"
  shows "((\<forall>n. \<not> throws_nothing (handler_result_of co n)) \<longrightarrow>
            lastRuntimeError (snd (snd (post_webhook rt co body s))) = lastRuntimeError s)
       \<and> (lastRuntimeError (snd (snd (post_webhook rt co body s))) = lastRuntimeError s
          \<or> lastRuntimeError (snd (snd (post_webhook rt co body s)))
              = JStr (unreadable_text JNull ''message'')
          \<or> lastRuntimeError (snd (snd (post_webhook rt co body s)))
              = JStr (unreadable_text JUndefined ''message''))
       \<and> lastRuntimeError (snd (settle co rejected (snd (snd (post_webhook rt co body s)))))
           = lastRuntimeError (snd (snd (post_webhook rt co body s)))"
  using post_webhook_dispatches(2,3) [OF assms]
  by (simp add: settle_def log_failure_state)

text \<open>
  The sample payload again: the message handler throws an error \<open>boom\<close>, the other two
  reject with an error \<open>late\<close>; the first message reaches the logger, the other two
  wait for their promises to settle, and \<open>lastRuntimeError\<close> is still unset.
\<close>

theorem handler_failure_not_recorded_witness:
  "(\<exists>cfg. getConfig (engine [(''S'', sample_settings)])
            (disk (fresh_server (plain_disk [(configPath, ''S'')])))
           = (Returns cfg, plain_disk [(configPath, ''S'')])
       \<and> token_configured cfg)
   \<and> handlers_missing (quiet\<lparr>handler_result_of := (\<lambda>n. if n = 0 then ThrowsSync (Error ''boom'')
                                                      else Rejects (Error ''late''))\<rparr>) = None
   \<and> logger_throws (quiet\<lparr>handler_result_of := (\<lambda>n. if n = 0 then ThrowsSync (Error ''boom'')
                                                   else Rejects (Error ''late''))\<rparr>) LogError = None
   \<and> well_formed_payload sample_payload
   \<and> (\<forall>n. \<not> throws_nothing (handler_result_of
              (quiet\<lparr>handler_result_of := (\<lambda>n. if n = 0 then ThrowsSync (Error ''boom'')
                                                else Rejects (Error ''late''))\<rparr>) n))
   \<and> lastRuntimeError (fresh_server (plain_disk [(configPath, ''S'')])) = JNull
   \<and> lastRuntimeError (snd (snd (post_webhook (engine [(''S'', sample_settings)])
         (quiet\<lparr>handler_result_of := (\<lambda>n. if n = 0 then ThrowsSync (Error ''boom'')
                                           else Rejects (Error ''late''))\<rparr>)
         sample_payload (fresh_server (plain_disk [(configPath, ''S'')]))))) = JNull
   \<and> logged (snd (snd (post_webhook (engine [(''S'', sample_settings)])
         (quiet\<lparr>handler_result_of := (\<lambda>n. if n = 0 then ThrowsSync (Error ''boom'')
                                           else Rejects (Error ''late''))\<rparr>)
         sample_payload (fresh_server (plain_disk [(configPath, ''S'')])))))
       = [(LogError, [JStr ''Error dispatching messaging event:'', JStr ''boom''])]
   \<and> rejections (snd (snd (post_webhook (engine [(''S'', sample_settings)])
         (quiet\<lparr>handler_result_of := (\<lambda>n. if n = 0 then ThrowsSync (Error ''boom'')
                                           else Rejects (Error ''late''))\<rparr>)
         sample_payload (fresh_server (plain_disk [(configPath, ''S'')])))))
       = [(''Error handling postback:'', Error ''late''),
          (''Error handling comment:'', Error ''late'')]"
proof -
  let ?co = "quiet\<lparr>handler_result_of := (\<lambda>n. if n = 0 then ThrowsSync (Error ''boom'')
                                           else Rejects (Error ''late''))\<rparr>"
  let ?s = "fresh_server (plain_disk [(configPath, ''S'')])"
  obtain cfg where cfg:
    "getConfig (engine [(''S'', sample_settings)]) (disk ?s)
       = (Returns cfg, plain_disk [(configPath, ''S'')])"
    "token_configured cfg"
    using sample_config [of "[]"] by (auto simp: fresh_server_def)
  have co: "handlers_missing ?co = None" "logger_throws ?co LogError = None"
    by (simp_all add: quiet_def)
  have sound: "\<forall>n. \<not> throws_nothing (handler_result_of ?co n)"
    by simp
  have wf: "well_formed_payload sample_payload"
    by (simp add: well_formed_payload_def well_formed_entry_def list_or_absent_def present_def
        sample_payload_def own_prop_def)
  have before: "lastRuntimeError ?s = JNull"
    by (simp add: fresh_server_def)
  from handler_failure_not_recorded [OF cfg co wf] sound before
  have after: "lastRuntimeError (snd (snd (post_webhook (engine [(''S'', sample_settings)])
         ?co sample_payload ?s))) = JNull"
    by simp
  from cfg have trace:
    "logged (snd (snd (post_webhook (engine [(''S'', sample_settings)]) ?co sample_payload ?s)))
       = [(LogError, [JStr ''Error dispatching messaging event:'', JStr ''boom''])]
     \<and> rejections (snd (snd (post_webhook (engine [(''S'', sample_settings)]) ?co
          sample_payload ?s)))
       = [(''Error handling postback:'', Error ''late''),
          (''Error handling comment:'', Error ''late'')]"
    by (simp add: post_webhook_def fresh_server_def Let_def token_configured_def quiet_def
        or_else_def and_prop_def sample_payload_def process_events_def dispatch_entry_def
        dispatch_messaging_def dispatch_change_def optional_forEach_def invoke_def logger_def
        log_failure_def message_read_def
        and_then_def try_catch_def reading_def get_prop_def own_prop_def returning_def)
  from cfg co wf sound before after trace show ?thesis
    by blast
qed

subsection \<open>A body that is malformed, empty, or not a page payload\<close>










end
